theory Spec2Isabelle
  imports Main "HOL-Library.Word" "HOL-Library.AList"
begin

section \<open>Data model of ThreadTest.cpp\<close>

text \<open>
  The machine integers of the source: \<open>Uptr\<close> is \<open>uintptr_t\<close> on a 64-bit target,
  \<open>U64\<close>/\<open>I64\<close> are 64-bit and \<open>I32\<close> is 32-bit. Arithmetic on them wraps.
\<close>

type_synonym Uptr = "64 word"
type_synonym U64 = "64 word"
type_synonym I64 = "64 word"
type_synonym I32 = "32 word"

definition UINTPTR_MAX :: Uptr where
  "UINTPTR_MAX = 2 ^ 64 - 1"

text \<open>
  Modelled from the spec: \<open>IR::ValueType\<close>, \<open>IR::FunctionType\<close>, \<open>IR::Value\<close> and
  \<open>Runtime::Function\<close> are declared in headers that are not part of the source file.
  The source names the value types \<open>i32\<close> and \<open>i64\<close>, builds a function type from a
  tuple of results and a tuple of parameters, and reads \<open>encodedType\<close> of a function.
\<close>

datatype ValueType = i32 | i64 | otherValueType nat

record FunctionType =
  results :: "ValueType list"
  params :: "ValueType list"

record Function =
  functionId :: nat
  encodedType :: FunctionType

datatype Value = Value_i32 I32 | Value_i64 I64

text \<open>
  \<open>struct Thread\<close>. The field \<open>id\<close> is called \<open>thread_id\<close> and \<open>context\<close> is called
  \<open>thread_context\<close> here. \<open>platformThread\<close> is a pointer: \<open>None\<close> is \<open>nullptr\<close>,
  \<open>Some h\<close> the handle of an OS thread. \<open>thread_context\<close> is the address of a
  \<open>Runtime::Context\<close>.
\<close>

record Thread =
  thread_id :: Uptr
  numRefs :: Uptr
  platformThread :: "nat option"
  thread_context :: nat
  entryFunction :: Function
  argument :: Value

text \<open>The constructor \<open>Thread(inContext, inEntryFunction, inArgument)\<close> with the
  default member initialisers \<open>id = UINTPTR_MAX\<close>, \<open>numRefs{0}\<close>,
  \<open>platformThread = nullptr\<close>.\<close>

definition new_Thread :: "nat \<Rightarrow> Function \<Rightarrow> Value \<Rightarrow> Thread" where
  "new_Thread inContext inEntryFunction inArgument =
     \<lparr>thread_id = UINTPTR_MAX, numRefs = 0, platformThread = None,
      thread_context = inContext, entryFunction = inEntryFunction,
      argument = inArgument\<rparr>"

text \<open>
  Modelled from the spec: the execution contexts of the runtime
  (\<open>createContext\<close>, \<open>cloneContext\<close>, \<open>getCompartmentFromContext\<close> live in the runtime,
  outside the source file). A context belongs to a compartment and is either created
  afresh or cloned from an existing context.
\<close>

datatype ContextOrigin = Created | ClonedFrom nat

record Context =
  compartment :: nat
  origin :: ContextOrigin

text \<open>
  Modelled from the spec: the state of an OS thread as the platform primitives
  (\<open>Platform::createThread\<close>, \<open>forkCurrentThread\<close>, \<open>joinThread\<close>, \<open>detachThread\<close>,
  \<open>exitThread\<close>) see it: running, or terminated with its logical exit code.
\<close>

datatype OsStatus = Running | Exited I64

text \<open>
  Modelled from the spec: what the platform keeps for an OS thread. \<open>startArg\<close> is
  the pointer handed to \<open>Platform::createThread\<close> for the trampoline (\<open>None\<close> for a
  thread made by \<open>forkCurrentThread\<close>, which resumes at the fork point), and
  \<open>handleValid\<close> holds until the handle is joined or detached.
\<close>

record OsThread =
  status :: OsStatus
  startArg :: "nat option"
  handleValid :: bool

text \<open>
  The state the source file works on. Stores are association lists read with
  \<open>map_of\<close>:
  \<^item> \<open>heap\<close>: the \<open>Thread\<close> objects allocated with \<open>new\<close>, by address; \<open>delete\<close>
    removes the address.
  \<^item> \<open>threadsMutex\<close>: \<open>True\<close> while \<open>threadsMutex\<close> is locked.
  \<^item> \<open>threads\<close>: the entries of the global \<open>IndexMap<Uptr, IntrusiveSharedPtr<Thread>>\<close>,
    a shared pointer being an address or null.
  \<^item> \<open>currentThread\<close>: the thread-local \<open>currentThread\<close> of every OS thread
    (OS threads are named by their platform handle).
  \<^item> \<open>contexts\<close>: the runtime's contexts, by address.
  \<^item> \<open>osThreads\<close>: the platform's threads, by handle.
\<close>

record State =
  heap :: "(nat \<times> Thread) list"
  threadsMutex :: bool
  threads :: "(Uptr \<times> nat option) list"
  currentThread :: "nat \<Rightarrow> nat option"
  contexts :: "(nat \<times> Context) list"
  osThreads :: "(nat \<times> OsThread) list"

text \<open>
  Every throw and fatal error of the source is a value:
  \<open>invalidArgument\<close> and \<open>indirectCallSignatureMismatch\<close> are the two runtime
  exceptions thrown with \<open>throwException\<close>, \<open>fatalError\<close> is a failed \<open>errorUnless\<close>
  or \<open>removeOrFail\<close>, \<open>assertionFailure\<close> a failed \<open>wavmAssert\<close>, \<open>memoryFault\<close> the
  dereference of a null or deleted pointer, \<open>platformError\<close> a failure of a platform
  primitive, and \<open>mutexBusy\<close> stands for a \<open>Lock\<close> that cannot be taken because the
  mutex is held: the call waits there. \<open>wavmAssert\<close> is taken as checked, as in a
  build with assertions enabled. An error comes with the state it leaves behind.
\<close>

datatype error =
    invalidArgument
  | indirectCallSignatureMismatch
  | fatalError
  | assertionFailure
  | memoryFault
  | platformError
  | mutexBusy

type_synonym 'a result = "(error \<times> State) + ('a \<times> State)"

definition bindE :: "'a result \<Rightarrow> ('a \<Rightarrow> State \<Rightarrow> 'b result) \<Rightarrow> 'b result" where
  "bindE r f = (case r of Inl e \<Rightarrow> Inl e | Inr (x, s) \<Rightarrow> f x s)"

text \<open>A fresh address, handle or context: one above every one in use.\<close>

definition fresh :: "nat list \<Rightarrow> nat" where
  "fresh ks = Suc (fold max ks 0)"

section \<open>Reference counting\<close>

text \<open>\<open>void addRef(Uptr delta = 1) { numRefs += delta; }\<close>\<close>

definition addRef :: "nat \<Rightarrow> Uptr \<Rightarrow> State \<Rightarrow> unit result" where
  "addRef p delta s =
     (case map_of (heap s) p of
        None \<Rightarrow> Inl (memoryFault, s)
      | Some t \<Rightarrow>
          Inr ((), s\<lparr>heap := AList.update p (t\<lparr>numRefs := numRefs t + delta\<rparr>) (heap s)\<rparr>))"

text \<open>\<open>void removeRef() { if(--numRefs == 0) { delete this; } }\<close>\<close>

definition removeRef :: "nat \<Rightarrow> State \<Rightarrow> unit result" where
  "removeRef p s =
     (case map_of (heap s) p of
        None \<Rightarrow> Inl (memoryFault, s)
      | Some t \<Rightarrow>
          (if numRefs t - 1 = 0
           then Inr ((), s\<lparr>heap := AList.delete p (heap s)\<rparr>)
           else Inr ((), s\<lparr>heap := AList.update p (t\<lparr>numRefs := numRefs t - 1\<rparr>) (heap s)\<rparr>)))"

text \<open>
  Modelled from the spec: \<open>IntrusiveSharedPtr\<close> (its header is not part of the source
  file). Constructing one from a non-null raw pointer adds a reference, destroying a
  non-null one releases a reference, moving one changes no count and leaves the
  source null, and assigning a raw pointer adds a reference to the new pointee and
  then releases the old one.
\<close>

definition IntrusiveSharedPtr_release :: "nat option \<Rightarrow> State \<Rightarrow> unit result" where
  "IntrusiveSharedPtr_release ptr s =
     (case ptr of None \<Rightarrow> Inr ((), s) | Some p \<Rightarrow> removeRef p s)"

definition IntrusiveSharedPtr_acquire :: "nat option \<Rightarrow> State \<Rightarrow> unit result" where
  "IntrusiveSharedPtr_acquire ptr s =
     (case ptr of None \<Rightarrow> Inr ((), s) | Some p \<Rightarrow> addRef p 1 s)"

text \<open>\<open>static void setCurrentThread(Thread* thread) { currentThread = thread; }\<close>,
  run by the OS thread \<open>self\<close>; the same assignment is the first statement of
  \<open>threadEntry\<close>.\<close>

definition setCurrentThread :: "nat \<Rightarrow> nat option \<Rightarrow> State \<Rightarrow> unit result" where
  "setCurrentThread self thread s =
     (let oldValue = currentThread s self
      in bindE (IntrusiveSharedPtr_acquire thread
                  (s\<lparr>currentThread := (currentThread s)(self := thread)\<rparr>))
           (\<lambda>_ s1. IntrusiveSharedPtr_release oldValue s1))"

section \<open>The registry\<close>

text \<open>\<open>static IndexMap<Uptr, IntrusiveSharedPtr<Thread>> threads(1, UINTPTR_MAX);\<close>\<close>

definition threads_minIndex :: Uptr where
  "threads_minIndex = 1"

definition threads_maxIndex :: Uptr where
  "threads_maxIndex = UINTPTR_MAX"

text \<open>
  Modelled from the spec: \<open>IndexMap\<close> (its header is not part of the source file).
  \<open>add(failIndex, value)\<close> stores the value under the smallest index between
  \<open>minIndex\<close> and \<open>maxIndex\<close> that is not in use and returns the index, or returns
  \<open>failIndex\<close> when every index is in use; \<open>contains\<close> tells whether an index is in
  use; \<open>operator[]\<close> reads the value stored under an index; \<open>removeOrFail\<close> frees an
  index, destroying the value stored there, and is a fatal error on an index that
  is not in use.
\<close>

function firstFreeIndex :: "Uptr list \<Rightarrow> Uptr \<Rightarrow> Uptr \<Rightarrow> Uptr option" where
  "firstFreeIndex used i maxIndex =
     (if maxIndex < i then None
      else if i \<notin> set used then Some i
      else if i = maxIndex then None
      else firstFreeIndex used (i + 1) maxIndex)"
  by pat_completeness auto
termination
proof (relation "measure (\<lambda>(used, i, maxIndex). unat maxIndex - unat i)")
  show "wf (measure (\<lambda>(used, i, maxIndex). unat maxIndex - unat i))"
    by simp
next
  fix used :: "Uptr list" and i maxIndex :: Uptr
  assume a: "\<not> maxIndex < i" "i \<noteq> maxIndex"
  then have lt: "i < maxIndex"
    by simp
  then have "unat (i + 1) = Suc (unat i)" and "unat i < unat maxIndex"
    by unat_arith+
  then show "((used, i + 1, maxIndex), (used, i, maxIndex))
      \<in> measure (\<lambda>(used, i, maxIndex). unat maxIndex - unat i)"
    by simp
qed

declare firstFreeIndex.simps [simp del]

definition IndexMap_contains :: "(Uptr \<times> 'v) list \<Rightarrow> Uptr \<Rightarrow> bool" where
  "IndexMap_contains m k = (map_of m k \<noteq> None)"

definition IndexMap_add ::
  "Uptr \<Rightarrow> Uptr \<Rightarrow> (Uptr \<times> 'v) list \<Rightarrow> 'v \<Rightarrow> (Uptr \<times> (Uptr \<times> 'v) list) option" where
  "IndexMap_add minIndex maxIndex m v =
     (case firstFreeIndex (map fst m) minIndex maxIndex of
        None \<Rightarrow> None
      | Some i \<Rightarrow> Some (i, (i, v) # m))"

text \<open>\<open>threads.add(0, thread)\<close>: on success the map constructs an
  \<open>IntrusiveSharedPtr<Thread>\<close> from the raw pointer, which adds a reference.\<close>

definition threads_add :: "Uptr \<Rightarrow> nat \<Rightarrow> State \<Rightarrow> Uptr result" where
  "threads_add failIndex thread s =
     (case IndexMap_add threads_minIndex threads_maxIndex (threads s) (Some thread) of
        None \<Rightarrow> Inr (failIndex, s)
      | Some (index, m) \<Rightarrow>
          bindE (IntrusiveSharedPtr_acquire (Some thread) s)
            (\<lambda>_ s1. Inr (index, s1\<lparr>threads := m\<rparr>)))"


text \<open>Reading and writing a field through a \<open>Thread*\<close>.\<close>

definition readThread :: "nat \<Rightarrow> State \<Rightarrow> Thread result" where
  "readThread p s =
     (case map_of (heap s) p of
        None \<Rightarrow> Inl (memoryFault, s)
      | Some t \<Rightarrow> Inr (t, s))"

definition modifyThread :: "nat \<Rightarrow> (Thread \<Rightarrow> Thread) \<Rightarrow> State \<Rightarrow> unit result" where
  "modifyThread p f s =
     (case map_of (heap s) p of
        None \<Rightarrow> Inl (memoryFault, s)
      | Some t \<Rightarrow> Inr ((), s\<lparr>heap := AList.update p (f t) (heap s)\<rparr>))"

text \<open>\<open>new Thread(...)\<close>: the object is stored at a fresh address.\<close>

definition new_object :: "Thread \<Rightarrow> State \<Rightarrow> nat \<times> State" where
  "new_object t s =
     (let p = fresh (map fst (heap s))
      in (p, s\<lparr>heap := AList.update p t (heap s)\<rparr>))"

text \<open>
  \<open>allocateThreadId\<close>: takes the lock, \<open>thread->id = threads.add(0, thread)\<close>,
  \<open>errorUnless(thread->id != 0)\<close>, \<open>return thread->id\<close>; the lock is released on return.
\<close>

definition allocateThreadId :: "nat \<Rightarrow> State \<Rightarrow> Uptr result" where
  "allocateThreadId thread s =
     (if threadsMutex s then Inl (mutexBusy, s)
      else
        bindE (threads_add 0 thread (s\<lparr>threadsMutex := True\<rparr>)) (\<lambda>index s1.
        bindE (modifyThread thread (\<lambda>t. t\<lparr>thread_id := index\<rparr>) s1) (\<lambda>_ s2.
        bindE (readThread thread s2) (\<lambda>t s3.
          if thread_id t \<noteq> 0
          then Inr (thread_id t, s3\<lparr>threadsMutex := False\<rparr>)
          else Inl (fatalError, s3)))))"

text \<open>\<open>validateThreadId\<close>: throws \<open>invalidArgumentType\<close> if
  \<open>threadId == 0 || !threads.contains(threadId)\<close>.\<close>

definition validateThreadId :: "Uptr \<Rightarrow> State \<Rightarrow> unit result" where
  "validateThreadId threadId s =
     (if threadId = 0 \<or> \<not> IndexMap_contains (threads s) threadId
      then Inl (invalidArgument, s)
      else Inr ((), s))"

text \<open>The statements of \<open>removeThreadById\<close> that run under the lock, one by one:
  \<open>thread = std::move(threads[threadId])\<close> leaves a null pointer in the slot,\<close>

definition removeThreadById_move :: "Uptr \<Rightarrow> State \<Rightarrow> (nat option) result" where
  "removeThreadById_move threadId s =
     (case map_of (threads s) threadId of
        None \<Rightarrow> Inl (fatalError, s)
      | Some ptr \<Rightarrow> Inr (ptr, s\<lparr>threads := AList.update threadId None (threads s)\<rparr>))"

text \<open>\<open>threads.removeOrFail(threadId)\<close> frees the slot (its pointer is null by now,
  so no reference is released),\<close>

definition removeThreadById_erase :: "Uptr \<Rightarrow> State \<Rightarrow> unit result" where
  "removeThreadById_erase threadId s =
     (case map_of (threads s) threadId of
        None \<Rightarrow> Inl (fatalError, s)
      | Some ptr \<Rightarrow>
          bindE (IntrusiveSharedPtr_release ptr s)
            (\<lambda>_ s1. Inr ((), s1\<lparr>threads := AList.delete threadId (threads s1)\<rparr>)))"

text \<open>and \<open>wavmAssert(thread->id == Uptr(threadId)); thread->id = UINTPTR_MAX;\<close>.\<close>

definition removeThreadById_resetId :: "Uptr \<Rightarrow> nat option \<Rightarrow> State \<Rightarrow> nat result" where
  "removeThreadById_resetId threadId ptr s =
     (case ptr of
        None \<Rightarrow> Inl (memoryFault, s)
      | Some thread \<Rightarrow>
          bindE (readThread thread s) (\<lambda>t s1.
            if thread_id t \<noteq> threadId then Inl (assertionFailure, s1)
            else bindE (modifyThread thread (\<lambda>t. t\<lparr>thread_id := UINTPTR_MAX\<rparr>) s1)
                   (\<lambda>_ s2. Inr (thread, s2))))"

text \<open>
  \<open>removeThreadById\<close>: the lock is taken, the id validated, the slot moved out of and
  freed, the stored id reset; the lock is released when the function returns and
  when \<open>validateThreadId\<close> throws.
\<close>

definition removeThreadById :: "Uptr \<Rightarrow> State \<Rightarrow> nat result" where
  "removeThreadById threadId s =
     (if threadsMutex s then Inl (mutexBusy, s)
      else
        (case validateThreadId threadId (s\<lparr>threadsMutex := True\<rparr>) of
           Inl (e, s1) \<Rightarrow> Inl (e, s1\<lparr>threadsMutex := False\<rparr>)
         | Inr (_, s1) \<Rightarrow>
             bindE (removeThreadById_move threadId s1) (\<lambda>ptr s2.
             bindE (removeThreadById_erase threadId s2) (\<lambda>_ s3.
             bindE (removeThreadById_resetId threadId ptr s3) (\<lambda>thread s4.
               Inr (thread, s4\<lparr>threadsMutex := False\<rparr>))))))"


section \<open>Runtime and platform primitives\<close>

text \<open>
  Modelled from the spec: the context allocator of the runtime, which is not part of
  the source file. \<open>getCompartmentFromContext\<close> reads the compartment of a context,
  \<open>createContext\<close> makes a new context in a compartment, \<open>cloneContext\<close> makes a new
  context in a compartment as a clone of an existing one.
\<close>

definition getCompartmentFromContext :: "nat \<Rightarrow> State \<Rightarrow> nat option" where
  "getCompartmentFromContext c s = map_option compartment (map_of (contexts s) c)"

definition createContext :: "nat \<Rightarrow> State \<Rightarrow> nat \<times> State" where
  "createContext cmpt s =
     (let c = fresh (map fst (contexts s))
      in (c, s\<lparr>contexts := AList.update c \<lparr>compartment = cmpt, origin = Created\<rparr> (contexts s)\<rparr>))"

definition cloneContext :: "nat \<Rightarrow> nat \<Rightarrow> State \<Rightarrow> nat \<times> State" where
  "cloneContext oldContext cmpt s =
     (let c = fresh (map fst (contexts s))
      in (c, s\<lparr>contexts :=
                 AList.update c \<lparr>compartment = cmpt, origin = ClonedFrom oldContext\<rparr> (contexts s)\<rparr>))"

text \<open>
  Modelled from the spec: the platform's thread primitives, which are not part of the
  source file. \<open>Platform::createThread\<close> spawns an OS thread that will run the
  trampoline on the given argument and returns its handle.
  \<open>Platform::forkCurrentThread\<close> makes an OS thread that resumes at the fork point; the
  caller gets its handle, the new thread gets null. \<open>Platform::joinThread\<close> waits for
  the thread of a handle to terminate and yields its exit code: \<open>None\<close> while the
  thread is running, which is the call blocking. \<open>Platform::detachThread\<close> gives the
  handle up without waiting. \<open>Platform::exitThread\<close> terminates the calling OS thread
  with a code. A null or stale handle is an error of the platform. The thread-local
  \<open>currentThread\<close> of a new OS thread starts out with its initialiser, \<open>nullptr\<close>.

  When the thread-locals of an OS thread are destroyed, the destructor of its
  \<open>currentThread\<close> releases the reference it holds (the source's comment on
  \<open>currentThread\<close>: it is there to decrement the count when the thread exits). An OS
  thread that returns from its trampoline destroys its thread-locals. Whether a
  thread ended by \<open>Platform::exitThread\<close> does is not settled by the source or the
  spec, so the primitive takes it as the parameter \<open>destroyThreadLocals\<close>.
\<close>

definition Platform_spawn :: "nat option \<Rightarrow> State \<Rightarrow> nat \<times> State" where
  "Platform_spawn arg s =
     (let h = fresh (map fst (osThreads s))
      in (h, s\<lparr>osThreads :=
                 AList.update h \<lparr>status = Running, startArg = arg, handleValid = True\<rparr>
                   (osThreads s),
               currentThread := (currentThread s)(h := None)\<rparr>))"

definition Platform_createThread :: "nat \<Rightarrow> State \<Rightarrow> nat \<times> State" where
  "Platform_createThread arg s = Platform_spawn (Some arg) s"

definition Platform_forkCurrentThread :: "State \<Rightarrow> nat \<times> State" where
  "Platform_forkCurrentThread s = Platform_spawn None s"

definition Platform_handle :: "nat option \<Rightarrow> State \<Rightarrow> (nat \<times> OsThread) option" where
  "Platform_handle ptr s =
     (case ptr of
        None \<Rightarrow> None
      | Some h \<Rightarrow>
          (case map_of (osThreads s) h of
             None \<Rightarrow> None
           | Some ot \<Rightarrow> if handleValid ot then Some (h, ot) else None))"

definition Platform_joinThread :: "nat option \<Rightarrow> State \<Rightarrow> (I64 option) result" where
  "Platform_joinThread ptr s =
     (case Platform_handle ptr s of
        None \<Rightarrow> Inl (platformError, s)
      | Some (h, ot) \<Rightarrow>
          (case status ot of
             Running \<Rightarrow> Inr (None, s)
           | Exited code \<Rightarrow>
               Inr (Some code,
                    s\<lparr>osThreads := AList.update h (ot\<lparr>handleValid := False\<rparr>) (osThreads s)\<rparr>)))"

definition Platform_detachThread :: "nat option \<Rightarrow> State \<Rightarrow> unit result" where
  "Platform_detachThread ptr s =
     (case Platform_handle ptr s of
        None \<Rightarrow> Inl (platformError, s)
      | Some (h, ot) \<Rightarrow>
          Inr ((), s\<lparr>osThreads := AList.update h (ot\<lparr>handleValid := False\<rparr>) (osThreads s)\<rparr>))"

definition currentThread_destroy :: "nat \<Rightarrow> State \<Rightarrow> unit result" where
  "currentThread_destroy self s =
     bindE (IntrusiveSharedPtr_release (currentThread s self) s)
       (\<lambda>_ s1. Inr ((), s1\<lparr>currentThread := (currentThread s1)(self := None)\<rparr>))"

definition Platform_threadEnd :: "bool \<Rightarrow> nat \<Rightarrow> I64 \<Rightarrow> State \<Rightarrow> unit result" where
  "Platform_threadEnd destroyThreadLocals self code s =
     bindE (if destroyThreadLocals then currentThread_destroy self s else Inr ((), s))
       (\<lambda>_ s1. Inr ((), s1\<lparr>osThreads :=
                             AList.map_entry self (\<lambda>ot. ot\<lparr>status := Exited code\<rparr>)
                               (osThreads s1)\<rparr>))"



section \<open>The intrinsic functions\<close>

text \<open>
  \<open>threadEntry\<close>, run by the spawned OS thread \<open>self\<close>: \<open>currentThread = thread\<close>,
  \<open>thread->removeRef()\<close>, then the entry function is invoked in the thread's context
  on the thread's argument and its 64-bit result returned. The guest function is a
  parameter, \<open>invokeFunctionUnchecked\<close>.
\<close>

definition threadEntry ::
  "(nat \<Rightarrow> Function \<Rightarrow> Value \<Rightarrow> I64) \<Rightarrow> nat \<Rightarrow> nat \<Rightarrow> State \<Rightarrow> I64 result" where
  "threadEntry invokeFunctionUnchecked self thread s =
     bindE (setCurrentThread self (Some thread) s) (\<lambda>_ s1.
     bindE (removeRef thread s1) (\<lambda>_ s2.
     bindE (readThread thread s2) (\<lambda>t s3.
       Inr (invokeFunctionUnchecked (thread_context t) (entryFunction t) (argument t), s3))))"

text \<open>
  Modelled from the spec: the OS thread of handle \<open>h\<close> runs its trampoline on its
  start argument, and the trampoline's result becomes the thread's logical exit code.
  The thread ends by returning from the trampoline, which destroys its thread-locals.
\<close>

definition Platform_runThread ::
  "(nat \<Rightarrow> Function \<Rightarrow> Value \<Rightarrow> I64) \<Rightarrow> nat \<Rightarrow> State \<Rightarrow> I64 result" where
  "Platform_runThread invokeFunctionUnchecked h s =
     (case map_of (osThreads s) h of
        None \<Rightarrow> Inl (platformError, s)
      | Some ot \<Rightarrow>
          (case startArg ot of
             None \<Rightarrow> Inl (platformError, s)
           | Some thread \<Rightarrow>
               bindE (threadEntry invokeFunctionUnchecked h thread s)
                 (\<lambda>code s1.
                    bindE (Platform_threadEnd True h code s1) (\<lambda>_ s2. Inr (code, s2)))))"

text \<open>
  \<open>createThread\<close>. \<open>contextRuntimeData\<close> stands for the calling context. The entry
  function is a pointer, \<open>None\<close> being null.
\<close>

definition createThread :: "nat \<Rightarrow> Function option \<Rightarrow> I32 \<Rightarrow> State \<Rightarrow> U64 result" where
  "createThread contextRuntimeData entryFunctionPtr entryArgument s =
     (case entryFunctionPtr of
        None \<Rightarrow> Inl (indirectCallSignatureMismatch, s)
      | Some f \<Rightarrow>
          if encodedType f \<noteq> \<lparr>results = [i64], params = [i32]\<rparr>
          then Inl (indirectCallSignatureMismatch, s)
          else
            (case getCompartmentFromContext contextRuntimeData s of
               None \<Rightarrow> Inl (memoryFault, s)
             | Some cmpt \<Rightarrow>
                 (case createContext cmpt s of (newContext, s1) \<Rightarrow>
                  case new_object (new_Thread newContext f (Value_i32 entryArgument)) s1 of
                    (thread, s2) \<Rightarrow>
                      bindE (allocateThreadId thread s2) (\<lambda>_ s3.
                      bindE (addRef thread 1 s3) (\<lambda>_ s4.
                      case Platform_createThread thread s4 of (h, s5) \<Rightarrow>
                        bindE (modifyThread thread (\<lambda>t. t\<lparr>platformThread := Some h\<rparr>) s5)
                          (\<lambda>_ s6.
                        bindE (readThread thread s6) (\<lambda>t s7. Inr (thread_id t, s7))))))))"

text \<open>
  \<open>forkThread\<close> up to the call of \<open>Platform::forkCurrentThread\<close>, run by the OS
  thread \<open>self\<close>: the context is cloned, \<open>wavmAssert(currentThread)\<close>, the child object
  is made from the parent's entry function and argument, \<open>childThread->addRef(2)\<close>.
  It yields the locals \<open>childThread\<close> and \<open>newContext\<close>.
\<close>

definition forkThread_prefix :: "nat \<Rightarrow> nat \<Rightarrow> State \<Rightarrow> (nat \<times> nat) result" where
  "forkThread_prefix self contextRuntimeData s =
     (case getCompartmentFromContext contextRuntimeData s of
        None \<Rightarrow> Inl (memoryFault, s)
      | Some cmpt \<Rightarrow>
          (case cloneContext contextRuntimeData cmpt s of (newContext, s1) \<Rightarrow>
           case currentThread s1 self of
             None \<Rightarrow> Inl (assertionFailure, s1)
           | Some cur \<Rightarrow>
               bindE (readThread cur s1) (\<lambda>parent s2.
               case new_object (new_Thread newContext (entryFunction parent) (argument parent)) s2 of
                 (childThread, s3) \<Rightarrow>
                   bindE (addRef childThread 2 s3) (\<lambda>_ s4.
                     Inr ((childThread, newContext), s4)))))"

text \<open>
  The branch \<open>if(platformThread)\<close>, on the original stack: the handle is stored, an id
  allocated, one reference released, and the id returned in the caller's context.
\<close>

definition forkThread_parent :: "nat \<Rightarrow> nat \<Rightarrow> nat \<Rightarrow> State \<Rightarrow> (I64 \<times> nat) result" where
  "forkThread_parent contextRuntimeData childThread platformThreadHandle s =
     bindE (modifyThread childThread (\<lambda>t. t\<lparr>platformThread := Some platformThreadHandle\<rparr>) s)
       (\<lambda>_ s1.
     bindE (allocateThreadId childThread s1) (\<lambda>threadId s2.
     bindE (removeRef childThread s2) (\<lambda>_ s3.
       Inr ((threadId, contextRuntimeData), s3))))"

text \<open>
  The \<open>else\<close> branch, on the duplicated stack, run by the new OS thread \<open>self\<close>:
  \<open>setCurrentThread(childThread)\<close>, one reference released, \<open>contextRuntimeData\<close>
  switched to the new context, and 0 returned there.
\<close>

definition forkThread_child :: "nat \<Rightarrow> nat \<Rightarrow> nat \<Rightarrow> State \<Rightarrow> (I64 \<times> nat) result" where
  "forkThread_child self childThread newContext s =
     bindE (setCurrentThread self (Some childThread) s) (\<lambda>_ s1.
     bindE (removeRef childThread s1) (\<lambda>_ s2.
       Inr ((0, newContext), s2)))"

text \<open>
  \<open>forkThread\<close> as a whole. The call returns on two stacks; the two continuations run
  one after the other, in either order, and the result is the pair of what the
  parent continuation and the child continuation return.
\<close>

datatype ForkOrder = ParentFirst | ChildFirst

definition forkThread ::
  "ForkOrder \<Rightarrow> nat \<Rightarrow> nat \<Rightarrow> State \<Rightarrow> ((I64 \<times> nat) \<times> (I64 \<times> nat)) result" where
  "forkThread order self contextRuntimeData s =
     bindE (forkThread_prefix self contextRuntimeData s) (\<lambda>(childThread, newContext) s1.
     case Platform_forkCurrentThread s1 of (h, s2) \<Rightarrow>
       (case order of
          ParentFirst \<Rightarrow>
            bindE (forkThread_parent contextRuntimeData childThread h s2) (\<lambda>rp s3.
            bindE (forkThread_child h childThread newContext s3) (\<lambda>rc s4.
              Inr ((rp, rc), s4)))
        | ChildFirst \<Rightarrow>
            bindE (forkThread_child h childThread newContext s2) (\<lambda>rc s3.
            bindE (forkThread_parent contextRuntimeData childThread h s3) (\<lambda>rp s4.
              Inr ((rp, rc), s4)))))"



text \<open>
  \<open>joinThread\<close> after \<open>removeThreadById\<close> has returned the local \<open>thread\<close>:
  \<open>Platform::joinThread(thread->platformThread)\<close>, then the handle is cleared and the
  result returned. The local shared pointer is destroyed when the function is left,
  by return or by an exception. \<open>None\<close> is the call still blocked in the platform.
\<close>

definition joinThread_wait :: "nat \<Rightarrow> State \<Rightarrow> (I64 option) result" where
  "joinThread_wait thread s =
     bindE (readThread thread s) (\<lambda>t s1.
       case Platform_joinThread (platformThread t) s1 of
         Inl (e, s2) \<Rightarrow>
           bindE (IntrusiveSharedPtr_release (Some thread) s2) (\<lambda>_ s3. Inl (e, s3))
       | Inr (None, s2) \<Rightarrow> Inr (None, s2)
       | Inr (Some code, s2) \<Rightarrow>
           bindE (modifyThread thread (\<lambda>t. t\<lparr>platformThread := None\<rparr>) s2) (\<lambda>_ s3.
           bindE (IntrusiveSharedPtr_release (Some thread) s3) (\<lambda>_ s4.
             Inr (Some code, s4))))"

definition joinThread :: "U64 \<Rightarrow> State \<Rightarrow> (I64 option) result" where
  "joinThread threadId s = bindE (removeThreadById threadId s) joinThread_wait"

text \<open>\<open>detachThread\<close>: the same with \<open>Platform::detachThread\<close>, which does not wait.\<close>

definition detachThread :: "U64 \<Rightarrow> State \<Rightarrow> unit result" where
  "detachThread threadId s =
     bindE (removeThreadById threadId s) (\<lambda>thread s1.
     bindE (readThread thread s1) (\<lambda>t s2.
       case Platform_detachThread (platformThread t) s2 of
         Inl (e, s3) \<Rightarrow>
           bindE (IntrusiveSharedPtr_release (Some thread) s3) (\<lambda>_ s4. Inl (e, s4))
       | Inr (_, s3) \<Rightarrow>
           bindE (modifyThread thread (\<lambda>t. t\<lparr>platformThread := None\<rparr>) s3) (\<lambda>_ s4.
           bindE (IntrusiveSharedPtr_release (Some thread) s4) (\<lambda>_ s5.
             Inr ((), s5)))))"


section \<open>Two callers racing to remove the same id\<close>

text \<open>
  \<open>removeThreadById\<close> statement by statement, for callers that run concurrently. A
  caller is waiting for the lock, or holds it and is about to validate, to move the
  slot's pointer out, to free the slot, to reset the stored id, or to return (which
  releases the lock), or is done with an exception or with the pointer. A step is
  \<open>None\<close> when the caller cannot move: the mutex is held by the other caller, or the
  call is over.
\<close>

datatype RemoveCall =
    Waiting
  | Validating
  | Moving
  | Erasing "nat option"
  | Resetting "nat option"
  | Returning nat
  | Done "error + nat"

definition removeThreadById_step ::
  "Uptr \<Rightarrow> RemoveCall \<Rightarrow> State \<Rightarrow> (RemoveCall \<times> State) option" where
  "removeThreadById_step threadId c s =
     (case c of
        Waiting \<Rightarrow>
          if threadsMutex s then None else Some (Validating, s\<lparr>threadsMutex := True\<rparr>)
      | Validating \<Rightarrow>
          (case validateThreadId threadId s of
             Inl (e, s1) \<Rightarrow> Some (Done (Inl e), s1\<lparr>threadsMutex := False\<rparr>)
           | Inr (_, s1) \<Rightarrow> Some (Moving, s1))
      | Moving \<Rightarrow>
          (case removeThreadById_move threadId s of
             Inl (e, s1) \<Rightarrow> Some (Done (Inl e), s1)
           | Inr (ptr, s1) \<Rightarrow> Some (Erasing ptr, s1))
      | Erasing ptr \<Rightarrow>
          (case removeThreadById_erase threadId s of
             Inl (e, s1) \<Rightarrow> Some (Done (Inl e), s1)
           | Inr (_, s1) \<Rightarrow> Some (Resetting ptr, s1))
      | Resetting ptr \<Rightarrow>
          (case removeThreadById_resetId threadId ptr s of
             Inl (e, s1) \<Rightarrow> Some (Done (Inl e), s1)
           | Inr (thread, s1) \<Rightarrow> Some (Returning thread, s1))
      | Returning thread \<Rightarrow> Some (Done (Inr thread), s\<lparr>threadsMutex := False\<rparr>)
      | Done r \<Rightarrow> None)"

text \<open>Two callers with the same id on a shared state. The scheduler picks the first
  caller (\<open>True\<close>) or the second; picking a caller that cannot move changes nothing.
  \<open>race\<close> runs a whole schedule.\<close>

definition race_step ::
  "Uptr \<Rightarrow> bool \<Rightarrow> RemoveCall \<times> RemoveCall \<times> State \<Rightarrow> RemoveCall \<times> RemoveCall \<times> State" where
  "race_step threadId pickFirst conf =
     (case conf of (a, b, s) \<Rightarrow>
        if pickFirst
        then (case removeThreadById_step threadId a s of
                None \<Rightarrow> (a, b, s)
              | Some (a', s') \<Rightarrow> (a', b, s'))
        else (case removeThreadById_step threadId b s of
                None \<Rightarrow> (a, b, s)
              | Some (b', s') \<Rightarrow> (a, b', s')))"

definition race ::
  "Uptr \<Rightarrow> bool list \<Rightarrow> RemoveCall \<times> RemoveCall \<times> State \<Rightarrow> RemoveCall \<times> RemoveCall \<times> State" where
  "race threadId schedule conf = fold (race_step threadId) schedule conf"

text \<open>A caller holds the object from the move on.\<close>

definition holds_pointer :: "RemoveCall \<Rightarrow> bool" where
  "holds_pointer c =
     (case c of
        Erasing _ \<Rightarrow> True
      | Resetting _ \<Rightarrow> True
      | Returning _ \<Rightarrow> True
      | Done (Inr _) \<Rightarrow> True
      | _ \<Rightarrow> False)"

text \<open>
  The configurations of a race that starts in state \<open>s\<close>, where the id is mapped to
  the object \<open>p\<close> with contents \<open>t\<close>: one caller goes through the critical section
  while the other waits, and the other then finds the id unmapped.
\<close>

definition race_confs ::
  "Uptr \<Rightarrow> nat \<Rightarrow> Thread \<Rightarrow> State \<Rightarrow> (RemoveCall \<times> RemoveCall \<times> State) list" where
  "race_confs threadId p t s =
     (let initial = (\<lambda>m. s\<lparr>threadsMutex := m\<rparr>);
          moved = s\<lparr>threadsMutex := True, threads := AList.update threadId None (threads s)\<rparr>;
          erased = s\<lparr>threadsMutex := True, threads := AList.delete threadId (threads s)\<rparr>;
          reset = (\<lambda>m. s\<lparr>threadsMutex := m, threads := AList.delete threadId (threads s),
                          heap := AList.update p (t\<lparr>thread_id := UINTPTR_MAX\<rparr>) (heap s)\<rparr>)
      in [(Waiting, Waiting, initial False),
          (Validating, Waiting, initial True), (Waiting, Validating, initial True),
          (Moving, Waiting, initial True), (Waiting, Moving, initial True),
          (Erasing (Some p), Waiting, moved), (Waiting, Erasing (Some p), moved),
          (Resetting (Some p), Waiting, erased), (Waiting, Resetting (Some p), erased),
          (Returning p, Waiting, reset True), (Waiting, Returning p, reset True),
          (Done (Inr p), Waiting, reset False), (Waiting, Done (Inr p), reset False),
          (Done (Inr p), Validating, reset True), (Validating, Done (Inr p), reset True),
          (Done (Inr p), Done (Inl invalidArgument), reset False),
          (Done (Inl invalidArgument), Done (Inr p), reset False)])"

text \<open>The reference count of the object at an address, if there is one.\<close>

definition refs :: "State \<Rightarrow> nat \<Rightarrow> Uptr option" where
  "refs s p = map_option numRefs (map_of (heap s) p)"

section \<open>Example states\<close>

text \<open>A function of type \<open>(i32) -> i64\<close>, a state with one context and no thread, and
  the state with one running thread of id 1 that \<open>createThread\<close> makes of it.\<close>

definition ex_function :: Function where
  "ex_function = \<lparr>functionId = 3, encodedType = \<lparr>results = [i64], params = [i32]\<rparr>\<rparr>"

definition ex_state0 :: State where
  "ex_state0 =
     \<lparr>heap = [], threadsMutex = False, threads = [], currentThread = (\<lambda>_. None),
      contexts = [(0, \<lparr>compartment = 7, origin = Created\<rparr>)], osThreads = []\<rparr>"

definition ex_thread :: Thread where
  "ex_thread =
     \<lparr>thread_id = 1, numRefs = 2, platformThread = Some 1, thread_context = 1,
      entryFunction = ex_function, argument = Value_i32 42\<rparr>"

definition ex_state1 :: State where
  "ex_state1 =
     \<lparr>heap = [(1, ex_thread)], threadsMutex = False, threads = [(1, Some 1)],
      currentThread = (\<lambda>_. None),
      contexts = [(0, \<lparr>compartment = 7, origin = Created\<rparr>),
                  (1, \<lparr>compartment = 7, origin = Created\<rparr>)],
      osThreads = [(1, \<lparr>status = Running, startArg = Some 1, handleValid = True\<rparr>)]\<rparr>"

text \<open>The same state once the spawned OS thread 1 has run the prologue of
  \<open>threadEntry\<close>: its \<open>currentThread\<close> is the object.\<close>

definition ex_state2 :: State where
  "ex_state2 = ex_state1\<lparr>currentThread := (\<lambda>_. None)(1 := Some 1)\<rparr>"

text \<open>The state \<open>ex_state1\<close> once the OS thread 1 has run its trampoline to the end
  with result 84: its \<open>currentThread\<close> is destroyed and only the registry slot holds
  the object.\<close>

definition ex_state3 :: State where
  "ex_state3 =
     \<lparr>heap = [(1, ex_thread\<lparr>numRefs := 1\<rparr>)], threadsMutex = False,
      threads = [(1, Some 1)], currentThread = (\<lambda>_. None),
      contexts = [(0, \<lparr>compartment = 7, origin = Created\<rparr>),
                  (1, \<lparr>compartment = 7, origin = Created\<rparr>)],
      osThreads = [(1, \<lparr>status = Exited 84, startArg = Some 1, handleValid = True\<rparr>)]\<rparr>"

section \<open>Auxiliary facts\<close>

lemma UINTPTR_MAX_eq: "UINTPTR_MAX = - 1"
  by (simp add: UINTPTR_MAX_def)

lemma fold_max_init: "(a::nat) \<le> fold max ks a"
proof (induction ks arbitrary: a)
  case (Cons x xs)
  have "a \<le> max x a" by simp
  also have "\<dots> \<le> fold max xs (max x a)" by (rule Cons.IH)
  finally show ?case by simp
qed simp

lemma fold_max_ge: "(k::nat) \<in> set ks \<Longrightarrow> k \<le> fold max ks a"
proof (induction ks arbitrary: a)
  case (Cons x xs)
  show ?case
  proof (cases "k = x")
    case True
    have "k \<le> max x a" using True by simp
    also have "\<dots> \<le> fold max xs (max x a)" by (rule fold_max_init)
    finally show ?thesis by simp
  next
    case False
    then show ?thesis using Cons by simp
  qed
qed simp

lemma fresh_greater: "k \<in> set ks \<Longrightarrow> k < fresh ks"
  using fold_max_ge [of k ks 0] by (simp add: fresh_def)

lemma map_of_fresh: "map_of m (fresh (map fst m)) = None"
proof (cases "map_of m (fresh (map fst m))")
  case (Some v)
  then have "fresh (map fst m) \<in> set (map fst m)"
    by (metis map_of_eq_None_iff option.distinct(1) set_map)
  then show ?thesis using fresh_greater by blast
qed simp

section \<open>Reference counting (C5)\<close>

text \<open>
  Claim C5. On a live control object, \<open>addRef(n)\<close> adds \<open>n\<close> to the reference count
  and \<open>removeRef\<close> subtracts one, each in a single step; the object is destroyed by
  \<open>removeRef\<close> exactly when that step brings the count to zero, and \<open>addRef\<close> never
  destroys it. Both leave every other object and every other part of the state as
  it was, and both work the same whether or not the registry's mutex is held.
\<close>

theorem refcount_protocol:
  assumes live: "map_of (heap s) p = Some t"
  shows "(\<exists>s'. addRef p n s = Inr ((), s')
            \<and> map_of (heap s') p = Some (t\<lparr>numRefs := numRefs t + n\<rparr>)
            \<and> (\<forall>q. q \<noteq> p \<longrightarrow> map_of (heap s') q = map_of (heap s) q)
            \<and> s'\<lparr>heap := heap s\<rparr> = s)
       \<and> (\<exists>s'. removeRef p s = Inr ((), s')
            \<and> (map_of (heap s') p = None \<longleftrightarrow> numRefs t - 1 = 0)
            \<and> (numRefs t - 1 \<noteq> 0 \<longrightarrow>
                  map_of (heap s') p = Some (t\<lparr>numRefs := numRefs t - 1\<rparr>))
            \<and> (\<forall>q. q \<noteq> p \<longrightarrow> map_of (heap s') q = map_of (heap s) q)
            \<and> s'\<lparr>heap := heap s\<rparr> = s)
       \<and> addRef p n (s\<lparr>threadsMutex := b\<rparr>)
            = map_sum id (\<lambda>(u, s'). (u, s'\<lparr>threadsMutex := b\<rparr>)) (addRef p n s)
       \<and> removeRef p (s\<lparr>threadsMutex := b\<rparr>)
            = map_sum id (\<lambda>(u, s'). (u, s'\<lparr>threadsMutex := b\<rparr>)) (removeRef p s)"
  using live
  by (auto simp: addRef_def removeRef_def update_conv' delete_conv')

theorem refcount_protocol_witness:
  "map_of (heap ex_state1) 1 = Some ex_thread
   \<and> (\<exists>s'. addRef 1 2 ex_state1 = Inr ((), s')
         \<and> map_of (heap s') 1 = Some (ex_thread\<lparr>numRefs := 4\<rparr>))
   \<and> (\<exists>s'. removeRef 1 ex_state1 = Inr ((), s')
         \<and> map_of (heap s') 1 = Some (ex_thread\<lparr>numRefs := 1\<rparr>))"
proof -
  have live: "map_of (heap ex_state1) 1 = Some ex_thread"
    by (simp add: ex_state1_def)
  have n: "numRefs ex_thread = 2"
    by (simp add: ex_thread_def)
  show ?thesis
    using live refcount_protocol [OF live, of 2 True] by (auto simp: n)
qed

lemma bindE_Inr [simp]: "bindE (Inr (x, s)) f = f x s"
  and bindE_Inl [simp]: "bindE (Inl e) f = Inl e"
  by (simp_all add: bindE_def)

lemma bindE_eq_Inr: "bindE r f = Inr y \<longleftrightarrow> (\<exists>x s1. r = Inr (x, s1) \<and> f x s1 = Inr y)"
  by (cases r) (auto simp: bindE_def)

lemma bindE_eq_Inl:
  "bindE r f = Inl e \<longleftrightarrow> r = Inl e \<or> (\<exists>x s1. r = Inr (x, s1) \<and> f x s1 = Inl e)"
  by (cases r) (auto simp: bindE_def)

section \<open>Signature check of createThread (C4)\<close>

text \<open>
  Claim C4. If the entry function passed to \<open>createThread\<close> is null, or its type is not
  one \<open>i32\<close> parameter and one \<open>i64\<close> result, the call fails with the
  signature-mismatch exception and the state is the one before the call: no id is
  allocated, no object is made or registered, the registry is unchanged.
\<close>

theorem createThread_signature_mismatch:
  assumes "entryFunctionPtr = None
           \<or> (\<exists>f. entryFunctionPtr = Some f
                    \<and> encodedType f \<noteq> \<lparr>results = [i64], params = [i32]\<rparr>)"
  shows "createThread contextRuntimeData entryFunctionPtr entryArgument s
           = Inl (indirectCallSignatureMismatch, s)"
  using assms by (auto simp: createThread_def)

theorem createThread_signature_mismatch_witness:
  "createThread 0 (Some \<lparr>functionId = 4, encodedType = \<lparr>results = [i64], params = [i64]\<rparr>\<rparr>)
       5 ex_state0 = Inl (indirectCallSignatureMismatch, ex_state0)
   \<and> createThread 0 None 5 ex_state0 = Inl (indirectCallSignatureMismatch, ex_state0)"
  using createThread_signature_mismatch
          [of "Some \<lparr>functionId = 4, encodedType = \<lparr>results = [i64], params = [i64]\<rparr>\<rparr>"
              0 5 ex_state0]
        createThread_signature_mismatch [of None 0 5 ex_state0]
  by simp

section \<open>Removal from the registry: joinThread and detachThread (C3)\<close>

lemma IntrusiveSharedPtr_release_error:
  "IntrusiveSharedPtr_release ptr s = Inl (e, s') \<Longrightarrow> e = memoryFault"
  by (auto simp: IntrusiveSharedPtr_release_def removeRef_def split: option.splits if_splits)

lemma IntrusiveSharedPtr_release_frame:
  "IntrusiveSharedPtr_release ptr s = Inr (u, s') \<Longrightarrow>
     threads s' = threads s \<and> threadsMutex s' = threadsMutex s
     \<and> currentThread s' = currentThread s \<and> contexts s' = contexts s
     \<and> osThreads s' = osThreads s"
  by (auto simp: IntrusiveSharedPtr_release_def removeRef_def split: option.splits if_splits)

lemma modifyThread_frame:
  "modifyThread p f s = Inr (u, s') \<Longrightarrow>
     threads s' = threads s \<and> threadsMutex s' = threadsMutex s
     \<and> currentThread s' = currentThread s \<and> contexts s' = contexts s
     \<and> osThreads s' = osThreads s"
  by (auto simp: modifyThread_def split: option.splits)

lemma modifyThread_error: "modifyThread p f s = Inl (e, s') \<Longrightarrow> e = memoryFault"
  by (auto simp: modifyThread_def split: option.splits)

lemma readThread_Inr: "readThread p s = Inr (t, s') \<longleftrightarrow> map_of (heap s) p = Some t \<and> s' = s"
  by (auto simp: readThread_def split: option.splits)

lemma readThread_error: "readThread p s = Inl (e, s') \<Longrightarrow> e = memoryFault"
  by (auto simp: readThread_def split: option.splits)

lemma Platform_joinThread_error: "Platform_joinThread h s = Inl (e, s') \<Longrightarrow> e = platformError"
  by (auto simp: Platform_joinThread_def split: option.splits OsStatus.splits)

lemma Platform_joinThread_frame:
  "Platform_joinThread h s = Inr (r, s') \<Longrightarrow>
     threads s' = threads s \<and> threadsMutex s' = threadsMutex s \<and> heap s' = heap s
     \<and> currentThread s' = currentThread s \<and> contexts s' = contexts s"
  by (auto simp: Platform_joinThread_def split: option.splits OsStatus.splits)

lemma Platform_detachThread_error: "Platform_detachThread h s = Inl (e, s') \<Longrightarrow> e = platformError"
  by (auto simp: Platform_detachThread_def split: option.splits)

lemma Platform_detachThread_frame:
  "Platform_detachThread h s = Inr (r, s') \<Longrightarrow>
     threads s' = threads s \<and> threadsMutex s' = threadsMutex s \<and> heap s' = heap s
     \<and> currentThread s' = currentThread s \<and> contexts s' = contexts s"
  by (auto simp: Platform_detachThread_def split: option.splits)

lemma joinThread_wait_error:
  assumes "joinThread_wait p s = Inl (e, s')"
  shows "e = memoryFault \<or> e = platformError"
proof (cases "map_of (heap s) p")
  case None
  then show ?thesis
    using assms by (simp add: joinThread_wait_def readThread_def)
next
  case (Some t)
  then have rd: "readThread p s = Inr (t, s)"
    by (simp add: readThread_def)
  show ?thesis
  proof (cases "Platform_joinThread (platformThread t) s")
    case (Inl es)
    then show ?thesis
      using assms rd Platform_joinThread_error [of "platformThread t" s "fst es" "snd es"]
      by (cases es)
         (auto simp: joinThread_wait_def bindE_eq_Inl dest: IntrusiveSharedPtr_release_error)
  next
    case (Inr rs)
    then show ?thesis
      using assms rd
      by (cases rs; cases "fst rs")
         (auto simp: joinThread_wait_def bindE_eq_Inl
               dest: IntrusiveSharedPtr_release_error modifyThread_error)
  qed
qed

lemma detachThread_wait_error:
  assumes "bindE (readThread p s) (\<lambda>t s2.
       case Platform_detachThread (platformThread t) s2 of
         Inl (e, s3) \<Rightarrow>
           bindE (IntrusiveSharedPtr_release (Some p) s3) (\<lambda>_ s4. Inl (e, s4))
       | Inr (_, s3) \<Rightarrow>
           bindE (modifyThread p (\<lambda>t. t\<lparr>platformThread := None\<rparr>) s3) (\<lambda>_ s4.
           bindE (IntrusiveSharedPtr_release (Some p) s4) (\<lambda>_ s5.
             Inr ((), s5)))) = Inl (e, s')"
  shows "e = memoryFault \<or> e = platformError"
proof (cases "map_of (heap s) p")
  case None
  then show ?thesis
    using assms by (simp add: readThread_def)
next
  case (Some t)
  then have rd: "readThread p s = Inr (t, s)"
    by (simp add: readThread_def)
  show ?thesis
  proof (cases "Platform_detachThread (platformThread t) s")
    case (Inl es)
    then show ?thesis
      using assms rd Platform_detachThread_error [of "platformThread t" s "fst es" "snd es"]
      by (cases es)
         (auto simp: bindE_eq_Inl dest: IntrusiveSharedPtr_release_error)
  next
    case (Inr rs)
    then show ?thesis
      using assms rd
      by (cases rs)
         (auto simp: bindE_eq_Inl
               dest: IntrusiveSharedPtr_release_error modifyThread_error)
  qed
qed

lemma removeThreadById_invalid:
  assumes "\<not> threadsMutex s" and "threadId = 0 \<or> \<not> IndexMap_contains (threads s) threadId"
  shows "removeThreadById threadId s = Inl (invalidArgument, s)"
  using assms by (auto simp: removeThreadById_def validateThreadId_def)

lemma removeThreadById_valid:
  assumes "\<not> threadsMutex s" and "threadId \<noteq> 0" and "IndexMap_contains (threads s) threadId"
  shows "removeThreadById threadId s =
     (case the (map_of (threads s) threadId) of
        None \<Rightarrow> Inl (memoryFault, s\<lparr>threadsMutex := True, threads := AList.delete threadId (threads s)\<rparr>)
      | Some p \<Rightarrow>
         (case map_of (heap s) p of
            None \<Rightarrow> Inl (memoryFault, s\<lparr>threadsMutex := True, threads := AList.delete threadId (threads s)\<rparr>)
          | Some t \<Rightarrow>
              if thread_id t \<noteq> threadId
              then Inl (assertionFailure, s\<lparr>threadsMutex := True, threads := AList.delete threadId (threads s)\<rparr>)
              else Inr (p, s\<lparr>threads := AList.delete threadId (threads s),
                              heap := AList.update p (t\<lparr>thread_id := UINTPTR_MAX\<rparr>) (heap s)\<rparr>)))"
  using assms
  by (auto simp: removeThreadById_def validateThreadId_def IndexMap_contains_def
        removeThreadById_move_def removeThreadById_erase_def removeThreadById_resetId_def
        IntrusiveSharedPtr_release_def readThread_def modifyThread_def
        update_conv' delete_update_same
      split: option.splits)


lemma removeThreadById_invalid_iff:
  assumes "\<not> threadsMutex s"
  shows "(\<exists>s'. removeThreadById threadId s = Inl (invalidArgument, s'))
         \<longleftrightarrow> (threadId = 0 \<or> \<not> IndexMap_contains (threads s) threadId)"
proof (cases "threadId = 0 \<or> \<not> IndexMap_contains (threads s) threadId")
  case True
  then show ?thesis
    using removeThreadById_invalid [OF assms] by blast
next
  case False
  then show ?thesis
    using removeThreadById_valid [OF assms, of threadId]
    by (auto split: option.splits if_splits)
qed

lemma removeThreadById_Inr:
  assumes "removeThreadById threadId s = Inr (p, s')"
  shows "\<not> threadsMutex s \<and> threadId \<noteq> 0 \<and> map_of (threads s) threadId = Some (Some p)
         \<and> (\<exists>t. map_of (heap s) p = Some t \<and> thread_id t = threadId
               \<and> s' = s\<lparr>threads := AList.delete threadId (threads s),
                          heap := AList.update p (t\<lparr>thread_id := UINTPTR_MAX\<rparr>) (heap s)\<rparr>)"
proof -
  have m: "\<not> threadsMutex s"
    using assms by (auto simp: removeThreadById_def)
  have v: "threadId \<noteq> 0 \<and> IndexMap_contains (threads s) threadId"
    using assms removeThreadById_invalid [OF m, of threadId] by auto
  then obtain ptr where ptr: "map_of (threads s) threadId = Some ptr"
    by (auto simp: IndexMap_contains_def)
  show ?thesis
    using assms m v ptr removeThreadById_valid [OF m, of threadId]
    by (auto split: option.splits if_splits)
qed

lemma joinThread_invalid_iff:
  assumes "\<not> threadsMutex s"
  shows "(\<exists>s'. joinThread threadId s = Inl (invalidArgument, s'))
         \<longleftrightarrow> (threadId = 0 \<or> \<not> IndexMap_contains (threads s) threadId)"
  using removeThreadById_invalid_iff [OF assms, of threadId]
  by (auto simp: joinThread_def bindE_eq_Inl dest: joinThread_wait_error)

lemma detachThread_invalid_iff:
  assumes "\<not> threadsMutex s"
  shows "(\<exists>s'. detachThread threadId s = Inl (invalidArgument, s'))
         \<longleftrightarrow> (threadId = 0 \<or> \<not> IndexMap_contains (threads s) threadId)"
proof -
  have "\<And>p s1 s'. bindE (readThread p s1) (\<lambda>t s2.
       case Platform_detachThread (platformThread t) s2 of
         Inl (e, s3) \<Rightarrow>
           bindE (IntrusiveSharedPtr_release (Some p) s3) (\<lambda>_ s4. Inl (e, s4))
       | Inr (_, s3) \<Rightarrow>
           bindE (modifyThread p (\<lambda>t. t\<lparr>platformThread := None\<rparr>) s3) (\<lambda>_ s4.
           bindE (IntrusiveSharedPtr_release (Some p) s4) (\<lambda>_ s5.
             Inr ((), s5)))) \<noteq> Inl (invalidArgument, s')"
    using detachThread_wait_error by blast
  then show ?thesis
    using removeThreadById_invalid_iff [OF assms, of threadId]
    by (auto simp: detachThread_def bindE_eq_Inl [where r = "removeThreadById threadId s"])
qed

lemma detachThread_Inr_frame:
  assumes "detachThread threadId s = Inr ((), s')"
  shows "\<not> threadsMutex s' \<and> threads s' = AList.delete threadId (threads s)"
proof -
  from assms obtain p s1 where rm: "removeThreadById threadId s = Inr (p, s1)"
    and rest: "bindE (readThread p s1) (\<lambda>t s2.
       case Platform_detachThread (platformThread t) s2 of
         Inl (e, s3) \<Rightarrow>
           bindE (IntrusiveSharedPtr_release (Some p) s3) (\<lambda>_ s4. Inl (e, s4))
       | Inr (_, s3) \<Rightarrow>
           bindE (modifyThread p (\<lambda>t. t\<lparr>platformThread := None\<rparr>) s3) (\<lambda>_ s4.
           bindE (IntrusiveSharedPtr_release (Some p) s4) (\<lambda>_ s5.
             Inr ((), s5)))) = Inr ((), s')"
    by (auto simp: detachThread_def bindE_eq_Inr [where r = "removeThreadById threadId s"])
  from removeThreadById_Inr [OF rm]
  have s1: "\<not> threadsMutex s1" "threads s1 = AList.delete threadId (threads s)"
    by auto
  from rest obtain t where t: "readThread p s1 = Inr (t, s1)"
    by (auto simp: bindE_eq_Inr readThread_Inr)
  show ?thesis
  proof (cases "Platform_detachThread (platformThread t) s1")
    case (Inl es)
    then show ?thesis
      using rest t by (cases es) (auto simp: bindE_eq_Inr)
  next
    case (Inr rs)
    then obtain s3 where s3: "Platform_detachThread (platformThread t) s1 = Inr ((), s3)"
      by (cases rs) auto
    with rest t obtain s4 where
      s4: "modifyThread p (\<lambda>t. t\<lparr>platformThread := None\<rparr>) s3 = Inr ((), s4)"
      and s5: "IntrusiveSharedPtr_release (Some p) s4 = Inr ((), s')"
      by (auto simp: bindE_eq_Inr)
    show ?thesis
      using s1 Platform_detachThread_frame [OF s3] modifyThread_frame [OF s4]
        IntrusiveSharedPtr_release_frame [OF s5]
      by simp
  qed
qed

text \<open>
  Claim C3. With the registry's mutex free at the call, \<open>joinThread(id)\<close> and
  \<open>detachThread(id)\<close> fail with the invalid-argument exception exactly when \<open>id\<close> is
  zero or not mapped in the registry; after a successful \<open>detachThread(id)\<close> a further
  \<open>joinThread(id)\<close> or \<open>detachThread(id)\<close> fails with that exception and changes
  nothing. A successful \<open>removeThreadById(id)\<close> returns the object the id was mapped
  to, leaves the id unmapped and every other id as it was, sets the stored id of
  the object to \<open>UINTPTR_MAX\<close> and changes nothing else of it (the reference the slot
  held is now the caller's), and touches no other object.
\<close>

theorem join_detach_invalid_argument:
  assumes "\<not> threadsMutex s"
  shows "((\<exists>s'. joinThread threadId s = Inl (invalidArgument, s'))
            \<longleftrightarrow> (threadId = 0 \<or> \<not> IndexMap_contains (threads s) threadId))
       \<and> ((\<exists>s'. detachThread threadId s = Inl (invalidArgument, s'))
            \<longleftrightarrow> (threadId = 0 \<or> \<not> IndexMap_contains (threads s) threadId))
       \<and> (\<forall>s'. detachThread threadId s = Inr ((), s') \<longrightarrow>
             joinThread threadId s' = Inl (invalidArgument, s')
           \<and> detachThread threadId s' = Inl (invalidArgument, s'))
       \<and> (\<forall>p s'. removeThreadById threadId s = Inr (p, s') \<longrightarrow>
             map_of (threads s) threadId = Some (Some p)
           \<and> \<not> IndexMap_contains (threads s') threadId
           \<and> (\<forall>k. k \<noteq> threadId \<longrightarrow> map_of (threads s') k = map_of (threads s) k)
           \<and> (\<exists>t. map_of (heap s) p = Some t
                  \<and> map_of (heap s') p = Some (t\<lparr>thread_id := UINTPTR_MAX\<rparr>))
           \<and> (\<forall>q. q \<noteq> p \<longrightarrow> map_of (heap s') q = map_of (heap s) q))"
proof (intro conjI allI impI)
  show "(\<exists>s'. joinThread threadId s = Inl (invalidArgument, s'))
            \<longleftrightarrow> (threadId = 0 \<or> \<not> IndexMap_contains (threads s) threadId)"
    by (rule joinThread_invalid_iff [OF assms])
  show "(\<exists>s'. detachThread threadId s = Inl (invalidArgument, s'))
            \<longleftrightarrow> (threadId = 0 \<or> \<not> IndexMap_contains (threads s) threadId)"
    by (rule detachThread_invalid_iff [OF assms])
next
  fix s' assume d: "detachThread threadId s = Inr ((), s')"
  from detachThread_Inr_frame [OF d]
  have m: "\<not> threadsMutex s'" and nc: "\<not> IndexMap_contains (threads s') threadId"
    by (simp_all add: IndexMap_contains_def delete_conv')
  have r: "removeThreadById threadId s' = Inl (invalidArgument, s')"
    using removeThreadById_invalid [OF m] nc by simp
  show "joinThread threadId s' = Inl (invalidArgument, s')"
    by (simp add: joinThread_def r)
  show "detachThread threadId s' = Inl (invalidArgument, s')"
    by (simp add: detachThread_def r)
next
  fix p s' assume r: "removeThreadById threadId s = Inr (p, s')"
  from removeThreadById_Inr [OF r] obtain t where
    f: "map_of (threads s) threadId = Some (Some p)" "map_of (heap s) p = Some t"
       "s' = s\<lparr>threads := AList.delete threadId (threads s),
                heap := AList.update p (t\<lparr>thread_id := UINTPTR_MAX\<rparr>) (heap s)\<rparr>"
    by blast
  show "map_of (threads s) threadId = Some (Some p)" by (rule f)
  show "\<not> IndexMap_contains (threads s') threadId"
    by (simp add: f IndexMap_contains_def delete_conv')
  show "\<exists>t. map_of (heap s) p = Some t
                  \<and> map_of (heap s') p = Some (t\<lparr>thread_id := UINTPTR_MAX\<rparr>)"
    by (simp add: f update_conv')
  show "\<And>k. k \<noteq> threadId \<Longrightarrow> map_of (threads s') k = map_of (threads s) k"
    by (simp add: f delete_conv')
  show "\<And>q. q \<noteq> p \<Longrightarrow> map_of (heap s') q = map_of (heap s) q"
    by (simp add: f update_conv')
qed


lemmas eval_defs =
  ex_state0_def ex_state1_def ex_thread_def ex_function_def
  detachThread_def joinThread_def joinThread_wait_def removeThreadById_def
  validateThreadId_def IndexMap_contains_def
  removeThreadById_move_def removeThreadById_erase_def removeThreadById_resetId_def
  IntrusiveSharedPtr_release_def IntrusiveSharedPtr_acquire_def removeRef_def addRef_def
  readThread_def modifyThread_def
  Platform_detachThread_def Platform_joinThread_def Platform_handle_def




theorem join_detach_invalid_argument_witness:
  "\<not> threadsMutex ex_state1
   \<and> (\<exists>s'. detachThread 1 ex_state1 = Inr ((), s')
          \<and> joinThread 1 s' = Inl (invalidArgument, s'))
   \<and> (\<exists>p s'. removeThreadById 1 ex_state1 = Inr (p, s')
          \<and> \<not> IndexMap_contains (threads s') 1)
   \<and> (\<exists>s'. joinThread 0 ex_state1 = Inl (invalidArgument, s'))"
proof -
  have m: "\<not> threadsMutex ex_state1"
    by (simp add: ex_state1_def)
  note at1 = join_detach_invalid_argument [OF m, of 1]
  note at0 = join_detach_invalid_argument [OF m, of 0]
  have "\<exists>s'. detachThread 1 ex_state1 = Inr ((), s')"
    by (simp add: eval_defs)
  then obtain s1 where d: "detachThread 1 ex_state1 = Inr ((), s1)" ..
  have j: "joinThread 1 s1 = Inl (invalidArgument, s1)"
    using at1 [THEN conjunct2, THEN conjunct2, THEN conjunct1, rule_format, OF d] by simp
  have "\<exists>p s'. removeThreadById 1 ex_state1 = Inr (p, s')"
    by (simp add: eval_defs)
  then obtain p s2 where r: "removeThreadById 1 ex_state1 = Inr (p, s2)" by blast
  have c: "\<not> IndexMap_contains (threads s2) 1"
    using at1 [THEN conjunct2, THEN conjunct2, THEN conjunct2, rule_format, OF r] by simp
  have z: "\<exists>s'. joinThread 0 ex_state1 = Inl (invalidArgument, s')"
    using at0 [THEN conjunct1] by simp
  show ?thesis
    using m d j r c z by blast
qed

section \<open>The allocator, createThread and forkThread computed\<close>

lemma firstFreeIndex_Some:
  "firstFreeIndex used i m = Some r \<Longrightarrow>
     i \<le> r \<and> r \<le> m \<and> r \<notin> set used \<and> (\<forall>j. i \<le> j \<and> j < r \<longrightarrow> j \<in> set used)"
proof (induction used i m rule: firstFreeIndex.induct)
  case (1 used i maxIndex)
  show ?case
  proof (cases "maxIndex < i \<or> i \<notin> set used \<or> i = maxIndex")
    case True
    then show ?thesis
      using "1.prems" by (auto simp: firstFreeIndex.simps [of used i maxIndex] split: if_splits)
  next
    case False
    then have rec: "firstFreeIndex used (i + 1) maxIndex = Some r"
      using "1.prems" by (simp add: firstFreeIndex.simps [of used i maxIndex])
    from False have lt: "i < maxIndex" by auto
    have ih: "i + 1 \<le> r \<and> r \<le> maxIndex \<and> r \<notin> set used
              \<and> (\<forall>j. i + 1 \<le> j \<and> j < r \<longrightarrow> j \<in> set used)"
      using "1.IH" False rec by auto
    have step: "\<And>j. i \<le> j \<Longrightarrow> j = i \<or> i + 1 \<le> j"
      using lt by unat_arith
    have "i \<le> r" using ih lt by unat_arith
    moreover have "\<forall>j. i \<le> j \<and> j < r \<longrightarrow> j \<in> set used"
      using ih step False by blast
    ultimately show ?thesis using ih by blast
  qed
qed

lemma firstFreeIndex_None:
  "firstFreeIndex used i m = None \<Longrightarrow> (\<forall>j. i \<le> j \<and> j \<le> m \<longrightarrow> j \<in> set used)"
proof (induction used i m rule: firstFreeIndex.induct)
  case (1 used i maxIndex)
  show ?case
  proof (cases "maxIndex < i")
    case True
    then show ?thesis by auto
  next
    case nlt: False
    then have iu: "i \<in> set used"
      using "1.prems" by (auto simp: firstFreeIndex.simps [of used i maxIndex] split: if_splits)
    show ?thesis
    proof (cases "i = maxIndex")
      case True
      then show ?thesis using iu by auto
    next
      case False
      then have rec: "firstFreeIndex used (i + 1) maxIndex = None"
        using "1.prems" nlt iu by (simp add: firstFreeIndex.simps [of used i maxIndex])
      have lt: "i < maxIndex" using nlt False by auto
      have ih: "\<forall>j. i + 1 \<le> j \<and> j \<le> maxIndex \<longrightarrow> j \<in> set used"
        using "1.IH" nlt iu False rec by auto
      have step: "\<And>j. i \<le> j \<Longrightarrow> j = i \<or> i + 1 \<le> j"
        using lt by unat_arith
      show ?thesis using ih step iu by blast
    qed
  qed
qed


lemma firstFreeIndex_threads_nonzero:
  assumes "firstFreeIndex used threads_minIndex threads_maxIndex = Some i"
  shows "i \<noteq> 0"
proof -
  have "1 \<le> i"
    using firstFreeIndex_Some [OF assms] by (simp add: threads_minIndex_def)
  then show ?thesis by unat_arith
qed

lemma allocateThreadId_eq:
  assumes m: "\<not> threadsMutex s"
    and ff: "firstFreeIndex (map fst (threads s)) threads_minIndex threads_maxIndex = Some i"
    and live: "map_of (heap s) p = Some t"
  shows "allocateThreadId p s =
           Inr (i, s\<lparr>heap := AList.update p (t\<lparr>numRefs := numRefs t + 1, thread_id := i\<rparr>) (heap s),
                     threads := (i, Some p) # threads s\<rparr>)"
  using m ff live firstFreeIndex_threads_nonzero [OF ff]
  by (simp add: allocateThreadId_def threads_add_def IndexMap_add_def
        IntrusiveSharedPtr_acquire_def addRef_def modifyThread_def readThread_def
        update_conv' update_last)

lemma allocateThreadId_Inr:
  assumes "allocateThreadId p s = Inr (i, s')"
  shows "\<not> threadsMutex s
       \<and> firstFreeIndex (map fst (threads s)) threads_minIndex threads_maxIndex = Some i
       \<and> (\<exists>t. map_of (heap s) p = Some t
            \<and> s' = s\<lparr>heap := AList.update p (t\<lparr>numRefs := numRefs t + 1, thread_id := i\<rparr>) (heap s),
                       threads := (i, Some p) # threads s\<rparr>)"
proof -
  have m: "\<not> threadsMutex s"
    using assms by (auto simp: allocateThreadId_def)
  obtain t where live: "map_of (heap s) p = Some t"
    using assms m
    by (cases "map_of (heap s) p")
       (auto simp: allocateThreadId_def threads_add_def IndexMap_add_def
          IntrusiveSharedPtr_acquire_def addRef_def modifyThread_def readThread_def
        split: option.splits)
  obtain j where ff: "firstFreeIndex (map fst (threads s)) threads_minIndex threads_maxIndex = Some j"
    using assms m live
    by (cases "firstFreeIndex (map fst (threads s)) threads_minIndex threads_maxIndex")
       (auto simp: allocateThreadId_def threads_add_def IndexMap_add_def
          modifyThread_def readThread_def update_conv')
  show ?thesis
    using assms m live ff allocateThreadId_eq [OF m ff live] by auto
qed


lemma createThread_eq:
  assumes ty: "encodedType f = \<lparr>results = [i64], params = [i32]\<rparr>"
    and cm: "getCompartmentFromContext contextRuntimeData s = Some cmpt"
    and m: "\<not> threadsMutex s"
    and ff: "firstFreeIndex (map fst (threads s)) threads_minIndex threads_maxIndex = Some i"
  shows "createThread contextRuntimeData (Some f) entryArgument s =
     Inr (i, s\<lparr>contexts := AList.update (fresh (map fst (contexts s)))
                               \<lparr>compartment = cmpt, origin = Created\<rparr> (contexts s),
               heap := AList.update (fresh (map fst (heap s)))
                         \<lparr>thread_id = i, numRefs = 2,
                          platformThread = Some (fresh (map fst (osThreads s))),
                          thread_context = fresh (map fst (contexts s)),
                          entryFunction = f, argument = Value_i32 entryArgument\<rparr> (heap s),
               threads := (i, Some (fresh (map fst (heap s)))) # threads s,
               osThreads := AList.update (fresh (map fst (osThreads s)))
                              \<lparr>status = Running, startArg = Some (fresh (map fst (heap s))),
                               handleValid = True\<rparr> (osThreads s),
               currentThread := (currentThread s)(fresh (map fst (osThreads s)) := None)\<rparr>)"
proof -
  define c where "c = fresh (map fst (contexts s))"
  define p where "p = fresh (map fst (heap s))"
  define s1 where "s1 = s\<lparr>contexts := AList.update c \<lparr>compartment = cmpt, origin = Created\<rparr> (contexts s)\<rparr>"
  define t0 where "t0 = new_Thread c f (Value_i32 entryArgument)"
  define s2 where "s2 = s1\<lparr>heap := AList.update p t0 (heap s1)\<rparr>"
  have cc: "createContext cmpt s = (c, s1)"
    by (simp add: createContext_def Let_def c_def s1_def)
  have no: "new_object t0 s1 = (p, s2)"
    by (simp add: new_object_def Let_def p_def s2_def s1_def)
  have m2: "\<not> threadsMutex s2"
    using m by (simp add: s2_def s1_def)
  have ff2: "firstFreeIndex (map fst (threads s2)) threads_minIndex threads_maxIndex = Some i"
    using ff by (simp add: s2_def s1_def)
  have live2: "map_of (heap s2) p = Some t0"
    by (simp add: s2_def update_conv')
  note al = allocateThreadId_eq [OF m2 ff2 live2]
  show ?thesis
    using ty cm
    by (simp add: createThread_def cc no al t0_def [symmetric])
       (simp add: addRef_def modifyThread_def readThread_def update_conv' update_last
          Platform_createThread_def Platform_spawn_def Let_def s2_def s1_def t0_def new_Thread_def
          c_def p_def)
qed


lemma IndexMap_contains_iff: "IndexMap_contains m k \<longleftrightarrow> k \<in> set (map fst m)"
  by (simp add: IndexMap_contains_def map_of_eq_None_iff)

lemma firstFreeIndex_threads_exists:
  assumes "j \<noteq> 0" and "\<not> IndexMap_contains (threads s) j"
  shows "\<exists>i. firstFreeIndex (map fst (threads s)) threads_minIndex threads_maxIndex = Some i"
proof (cases "firstFreeIndex (map fst (threads s)) threads_minIndex threads_maxIndex")
  case None
  have "1 \<le> j" using assms(1) by unat_arith
  moreover have "j \<le> UINTPTR_MAX" by (simp add: UINTPTR_MAX_eq)
  ultimately have "j \<in> set (map fst (threads s))"
    using firstFreeIndex_None [OF None] by (simp add: threads_minIndex_def threads_maxIndex_def)
  then show ?thesis using assms(2) by (simp add: IndexMap_contains_iff)
qed simp

lemma forkThread_prefix_eq:
  assumes cm: "getCompartmentFromContext contextRuntimeData s = Some cmpt"
    and cur: "currentThread s self = Some cur"
    and live: "map_of (heap s) cur = Some parent"
  shows "forkThread_prefix self contextRuntimeData s =
     Inr ((fresh (map fst (heap s)), fresh (map fst (contexts s))),
          s\<lparr>contexts := AList.update (fresh (map fst (contexts s)))
                          \<lparr>compartment = cmpt, origin = ClonedFrom contextRuntimeData\<rparr>
                          (contexts s),
            heap := AList.update (fresh (map fst (heap s)))
                      \<lparr>thread_id = UINTPTR_MAX, numRefs = 2, platformThread = None,
                       thread_context = fresh (map fst (contexts s)),
                       entryFunction = entryFunction parent, argument = argument parent\<rparr>
                      (heap s)\<rparr>)"
  using cm cur live
  by (simp add: forkThread_prefix_def cloneContext_def Let_def readThread_def new_object_def
        addRef_def update_conv' update_last new_Thread_def)

lemma forkThread_parent_eq:
  assumes m: "\<not> threadsMutex s"
    and ff: "firstFreeIndex (map fst (threads s)) threads_minIndex threads_maxIndex = Some i"
    and live: "map_of (heap s) child = Some t"
    and n: "numRefs t \<noteq> 0"
  shows "forkThread_parent contextRuntimeData child h s =
     Inr ((i, contextRuntimeData),
          s\<lparr>heap := AList.update child (t\<lparr>platformThread := Some h, thread_id := i\<rparr>) (heap s),
            threads := (i, Some child) # threads s\<rparr>)"
proof -
  define s1 where "s1 = s\<lparr>heap := AList.update child (t\<lparr>platformThread := Some h\<rparr>) (heap s)\<rparr>"
  have a: "modifyThread child (\<lambda>t. t\<lparr>platformThread := Some h\<rparr>) s = Inr ((), s1)"
    using live by (simp add: modifyThread_def s1_def)
  have m1: "\<not> threadsMutex s1" using m by (simp add: s1_def)
  have ff1: "firstFreeIndex (map fst (threads s1)) threads_minIndex threads_maxIndex = Some i"
    using ff by (simp add: s1_def)
  have live1: "map_of (heap s1) child = Some (t\<lparr>platformThread := Some h\<rparr>)"
    by (simp add: s1_def update_conv')
  show ?thesis
    using n
    by (simp add: forkThread_parent_def a allocateThreadId_eq [OF m1 ff1 live1])
       (simp add: removeRef_def update_conv' update_last s1_def)
qed

lemma forkThread_child_eq:
  assumes old: "currentThread s self = None"
    and live: "map_of (heap s) child = Some t"
    and n: "numRefs t \<noteq> 0"
  shows "forkThread_child self child newContext s =
     Inr ((0, newContext), s\<lparr>currentThread := (currentThread s)(self := Some child)\<rparr>)"
  using old live n
  by (simp add: forkThread_child_def setCurrentThread_def Let_def
        IntrusiveSharedPtr_acquire_def IntrusiveSharedPtr_release_def addRef_def removeRef_def
        update_conv' update_last update_triv)


lemma forkThread_eq:
  assumes cm: "getCompartmentFromContext contextRuntimeData s = Some cmpt"
    and cur: "currentThread s self = Some cur"
    and live: "map_of (heap s) cur = Some parent"
    and m: "\<not> threadsMutex s"
    and ff: "firstFreeIndex (map fst (threads s)) threads_minIndex threads_maxIndex = Some i"
  shows "forkThread order self contextRuntimeData s =
     Inr (((i, contextRuntimeData), (0, fresh (map fst (contexts s)))),
          s\<lparr>contexts := AList.update (fresh (map fst (contexts s)))
                          \<lparr>compartment = cmpt, origin = ClonedFrom contextRuntimeData\<rparr>
                          (contexts s),
            heap := AList.update (fresh (map fst (heap s)))
                      \<lparr>thread_id = i, numRefs = 2,
                       platformThread = Some (fresh (map fst (osThreads s))),
                       thread_context = fresh (map fst (contexts s)),
                       entryFunction = entryFunction parent, argument = argument parent\<rparr>
                      (heap s),
            threads := (i, Some (fresh (map fst (heap s)))) # threads s,
            osThreads := AList.update (fresh (map fst (osThreads s)))
                           \<lparr>status = Running, startArg = None, handleValid = True\<rparr>
                           (osThreads s),
            currentThread := (currentThread s)
                               (fresh (map fst (osThreads s)) := Some (fresh (map fst (heap s))))\<rparr>)"
proof -
  define c where "c = fresh (map fst (contexts s))"
  define child where "child = fresh (map fst (heap s))"
  define h where "h = fresh (map fst (osThreads s))"
  define t2 where "t2 = \<lparr>thread_id = UINTPTR_MAX, numRefs = 2, platformThread = None,
                       thread_context = c,
                       entryFunction = entryFunction parent, argument = argument parent\<rparr>"
  define s1 where "s1 = s\<lparr>contexts := AList.update c
                          \<lparr>compartment = cmpt, origin = ClonedFrom contextRuntimeData\<rparr>
                          (contexts s),
                        heap := AList.update child t2 (heap s)\<rparr>"
  define s2 where "s2 = s1\<lparr>osThreads := AList.update h
                           \<lparr>status = Running, startArg = None, handleValid = True\<rparr>
                           (osThreads s1),
                         currentThread := (currentThread s1)(h := None)\<rparr>"
  have pre: "forkThread_prefix self contextRuntimeData s = Inr ((child, c), s1)"
    using forkThread_prefix_eq [OF cm cur live]
    by (simp add: c_def child_def t2_def s1_def)
  have fk: "Platform_forkCurrentThread s1 = (h, s2)"
    by (simp add: Platform_forkCurrentThread_def Platform_spawn_def Let_def h_def s2_def s1_def)
  have n2: "numRefs t2 \<noteq> 0" by (simp add: t2_def)
  have m2: "\<not> threadsMutex s2" using m by (simp add: s2_def s1_def)
  have ff2: "firstFreeIndex (map fst (threads s2)) threads_minIndex threads_maxIndex = Some i"
    using ff by (simp add: s2_def s1_def)
  have live2: "map_of (heap s2) child = Some t2"
    by (simp add: s2_def s1_def update_conv')
  have old2: "currentThread s2 h = None"
    by (simp add: s2_def)
  note par2 = forkThread_parent_eq [OF m2 ff2 live2 n2, of contextRuntimeData h]
  note chi2 = forkThread_child_eq [OF old2 live2 n2, of c]
  define s3p where "s3p = s2\<lparr>heap := AList.update child (t2\<lparr>platformThread := Some h, thread_id := i\<rparr>) (heap s2),
            threads := (i, Some child) # threads s2\<rparr>"
  define s3c where "s3c = s2\<lparr>currentThread := (currentThread s2)(h := Some child)\<rparr>"
  have old3: "currentThread s3p h = None"
    by (simp add: s3p_def s2_def)
  have live3p: "map_of (heap s3p) child = Some (t2\<lparr>platformThread := Some h, thread_id := i\<rparr>)"
    by (simp add: s3p_def update_conv')
  have n3: "numRefs (t2\<lparr>platformThread := Some h, thread_id := i\<rparr>) \<noteq> 0"
    by (simp add: t2_def)
  note chi3 = forkThread_child_eq [OF old3 live3p n3, of c]
  have m3: "\<not> threadsMutex s3c" using m2 by (simp add: s3c_def)
  have ff3: "firstFreeIndex (map fst (threads s3c)) threads_minIndex threads_maxIndex = Some i"
    using ff2 by (simp add: s3c_def)
  have live3c: "map_of (heap s3c) child = Some t2"
    using live2 by (simp add: s3c_def)
  note par3 = forkThread_parent_eq [OF m3 ff3 live3c n2, of contextRuntimeData h]
  show ?thesis
  proof (cases order)
    case ParentFirst
    then show ?thesis
      by (simp add: forkThread_def pre fk par2 s3p_def [symmetric] chi3)
         (simp add: s3p_def s2_def s1_def t2_def c_def child_def h_def update_last)
  next
    case ChildFirst
    then show ?thesis
      by (simp add: forkThread_def pre fk chi2 s3c_def [symmetric] par3)
         (simp add: s3c_def s2_def s1_def t2_def c_def child_def h_def update_last)
  qed
qed

section \<open>forkThread returns twice (C1)\<close>

text \<open>
  Claim C1. When the calling OS thread has a current-thread object (a live one), its
  calling context exists, the registry's mutex is free and some nonzero id is free,
  \<open>forkThread\<close> returns twice, whichever continuation runs first: the child
  continuation gets 0 in the cloned context, the parent continuation gets in its own
  context an id that is nonzero and was not in use, and that id is now mapped to the
  child control object. The child object did not exist before; it holds the entry
  function and the argument that the parent object held at the call, and a context
  that did not exist before and is a clone of the calling context in the caller's
  compartment. The parent object is unchanged.
\<close>

theorem forkThread_returns_twice:
  assumes cur: "currentThread s self = Some cur"
    and live: "map_of (heap s) cur = Some parent"
    and cm: "getCompartmentFromContext contextRuntimeData s = Some cmpt"
    and m: "\<not> threadsMutex s"
    and free: "j \<noteq> 0 \<and> \<not> IndexMap_contains (threads s) j"
  shows "\<exists>i child c s' t.
      forkThread order self contextRuntimeData s = Inr (((i, contextRuntimeData), (0, c)), s')
    \<and> i \<noteq> 0 \<and> \<not> IndexMap_contains (threads s) i
    \<and> map_of (threads s') i = Some (Some child)
    \<and> map_of (heap s) child = None
    \<and> map_of (heap s') child = Some t
    \<and> entryFunction t = entryFunction parent \<and> argument t = argument parent
    \<and> thread_context t = c \<and> thread_id t = i
    \<and> map_of (contexts s) c = None
    \<and> map_of (contexts s') c
          = Some \<lparr>compartment = cmpt, origin = ClonedFrom contextRuntimeData\<rparr>
    \<and> map_of (heap s') cur = Some parent"
proof -
  obtain i where ff: "firstFreeIndex (map fst (threads s)) threads_minIndex threads_maxIndex = Some i"
    using firstFreeIndex_threads_exists free by blast
  have nz: "i \<noteq> 0" by (rule firstFreeIndex_threads_nonzero [OF ff])
  have nu: "\<not> IndexMap_contains (threads s) i"
    using firstFreeIndex_Some [OF ff] by (simp add: IndexMap_contains_iff)
  have ne: "cur \<noteq> fresh (map fst (heap s))"
    using live map_of_fresh [of "heap s"] by auto
  show ?thesis
    using nz nu ne live
    by (simp add: forkThread_eq [OF cm cur live m ff] update_conv' map_of_fresh)
qed

theorem forkThread_returns_twice_witness:
  "currentThread ex_state2 1 = Some 1
   \<and> map_of (heap ex_state2) 1 = Some ex_thread
   \<and> getCompartmentFromContext 1 ex_state2 = Some 7
   \<and> \<not> threadsMutex ex_state2
   \<and> \<not> IndexMap_contains (threads ex_state2) 2
   \<and> (\<exists>i c s'. forkThread ParentFirst 1 1 ex_state2 = Inr (((i, 1), (0, c)), s') \<and> i \<noteq> 0)"
proof -
  have a: "currentThread ex_state2 1 = Some 1"
    and b: "map_of (heap ex_state2) 1 = Some ex_thread"
    and c: "getCompartmentFromContext 1 ex_state2 = Some 7"
    and d: "\<not> threadsMutex ex_state2"
    and e: "(2::Uptr) \<noteq> 0 \<and> \<not> IndexMap_contains (threads ex_state2) 2"
    by (simp_all add: ex_state2_def ex_state1_def getCompartmentFromContext_def
          IndexMap_contains_def)
  from forkThread_returns_twice [OF a b c d e, of ParentFirst]
  show ?thesis using a b c d e by blast
qed

section \<open>Reference counts across forkThread (C2)\<close>

lemma setCurrentThread_eq:
  assumes old: "currentThread s self = None"
    and live: "map_of (heap s) p = Some t"
  shows "setCurrentThread self (Some p) s =
     Inr ((), s\<lparr>currentThread := (currentThread s)(self := Some p),
                 heap := AList.update p (t\<lparr>numRefs := numRefs t + 1\<rparr>) (heap s)\<rparr>)"
  using old live
  by (simp add: setCurrentThread_def Let_def IntrusiveSharedPtr_acquire_def
        IntrusiveSharedPtr_release_def addRef_def)

lemma removeRef_eq:
  assumes live: "map_of (heap s) p = Some t" and n: "numRefs t - 1 \<noteq> 0"
  shows "removeRef p s = Inr ((), s\<lparr>heap := AList.update p (t\<lparr>numRefs := numRefs t - 1\<rparr>) (heap s)\<rparr>)"
  using live n by (simp add: removeRef_def)

text \<open>
  Claim C2. In \<open>forkThread\<close> the child object is constructed with count 0 and its
  count is 2 when \<open>Platform::forkCurrentThread\<close> is called and when it returns. The
  parent continuation takes the count to 3 by registering the object (the slot's
  reference) and back to 2 by its one \<open>removeRef\<close>; the child continuation takes it
  to 3 by installing the object as \<open>currentThread\<close> and back to 2 by its one
  \<open>removeRef\<close>. This holds in both orders of the two continuations, and at the end
  the count 2 stands for the registry slot and the child's \<open>currentThread\<close>.
\<close>

theorem forkThread_reference_pairing:
  assumes cur: "currentThread s self = Some cur"
    and live: "map_of (heap s) cur = Some parent"
    and cm: "getCompartmentFromContext contextRuntimeData s = Some cmpt"
    and m: "\<not> threadsMutex s"
    and free: "j \<noteq> 0 \<and> \<not> IndexMap_contains (threads s) j"
  shows "\<exists>child c s1 h s2 i.
      forkThread_prefix self contextRuntimeData s = Inr ((child, c), s1)
    \<and> map_of (heap s) child = None
    \<and> numRefs (new_Thread c (entryFunction parent) (argument parent)) = 0
    \<and> refs s1 child = Some 2
    \<and> Platform_forkCurrentThread s1 = (h, s2)
    \<and> refs s2 child = Some 2
    \<and> (\<exists>sa sb sc sd.
          bindE (modifyThread child (\<lambda>t. t\<lparr>platformThread := Some h\<rparr>) s2)
            (\<lambda>_. allocateThreadId child) = Inr (i, sa)
        \<and> refs sa child = Some 3 \<and> map_of (threads sa) i = Some (Some child)
        \<and> removeRef child sa = Inr ((), sb)
        \<and> refs sb child = Some 2
        \<and> forkThread_parent contextRuntimeData child h s2 = Inr ((i, contextRuntimeData), sb)
        \<and> setCurrentThread h (Some child) sb = Inr ((), sc)
        \<and> refs sc child = Some 3 \<and> currentThread sc h = Some child
        \<and> removeRef child sc = Inr ((), sd)
        \<and> refs sd child = Some 2
        \<and> forkThread_child h child c sb = Inr ((0, c), sd)
        \<and> map_of (threads sd) i = Some (Some child) \<and> currentThread sd h = Some child)
    \<and> (\<exists>sa sb sc sd.
          setCurrentThread h (Some child) s2 = Inr ((), sa)
        \<and> refs sa child = Some 3 \<and> currentThread sa h = Some child
        \<and> removeRef child sa = Inr ((), sb)
        \<and> refs sb child = Some 2
        \<and> forkThread_child h child c s2 = Inr ((0, c), sb)
        \<and> bindE (modifyThread child (\<lambda>t. t\<lparr>platformThread := Some h\<rparr>) sb)
            (\<lambda>_. allocateThreadId child) = Inr (i, sc)
        \<and> refs sc child = Some 3 \<and> map_of (threads sc) i = Some (Some child)
        \<and> removeRef child sc = Inr ((), sd)
        \<and> refs sd child = Some 2
        \<and> forkThread_parent contextRuntimeData child h sb = Inr ((i, contextRuntimeData), sd)
        \<and> map_of (threads sd) i = Some (Some child) \<and> currentThread sd h = Some child)"
proof -
  obtain i where ff: "firstFreeIndex (map fst (threads s)) threads_minIndex threads_maxIndex = Some i"
    using firstFreeIndex_threads_exists free by blast
  define c where "c = fresh (map fst (contexts s))"
  define child where "child = fresh (map fst (heap s))"
  define h where "h = fresh (map fst (osThreads s))"
  define t2 where "t2 = \<lparr>thread_id = UINTPTR_MAX, numRefs = 2, platformThread = None,
                       thread_context = c,
                       entryFunction = entryFunction parent, argument = argument parent\<rparr>"
  define s1 where "s1 = s\<lparr>contexts := AList.update c
                          \<lparr>compartment = cmpt, origin = ClonedFrom contextRuntimeData\<rparr>
                          (contexts s),
                        heap := AList.update child t2 (heap s)\<rparr>"
  define s2 where "s2 = s1\<lparr>osThreads := AList.update h
                           \<lparr>status = Running, startArg = None, handleValid = True\<rparr>
                           (osThreads s1),
                         currentThread := (currentThread s1)(h := None)\<rparr>"
  have pre: "forkThread_prefix self contextRuntimeData s = Inr ((child, c), s1)"
    using forkThread_prefix_eq [OF cm cur live]
    by (simp add: c_def child_def t2_def s1_def)
  have fk: "Platform_forkCurrentThread s1 = (h, s2)"
    by (simp add: Platform_forkCurrentThread_def Platform_spawn_def Let_def h_def s2_def s1_def)
  have fresh_child: "map_of (heap s) child = None"
    by (simp add: child_def map_of_fresh)
  have r1: "refs s1 child = Some 2" and r2: "refs s2 child = Some 2"
    by (simp_all add: refs_def s2_def s1_def update_conv' t2_def)
  have m2: "\<not> threadsMutex s2" using m by (simp add: s2_def s1_def)
  have ff2: "firstFreeIndex (map fst (threads s2)) threads_minIndex threads_maxIndex = Some i"
    using ff by (simp add: s2_def s1_def)
  have live2: "map_of (heap s2) child = Some t2"
    by (simp add: s2_def s1_def update_conv')
  have old2: "currentThread s2 h = None"
    by (simp add: s2_def)
  \<comment> \<open>the two steps of a parent continuation from a state \<open>u\<close> with count 2\<close>
  have parent_steps:
    "\<exists>sa sb. bindE (modifyThread child (\<lambda>t. t\<lparr>platformThread := Some h\<rparr>) u)
            (\<lambda>_. allocateThreadId child) = Inr (i, sa)
        \<and> refs sa child = Some 3 \<and> map_of (threads sa) i = Some (Some child)
        \<and> removeRef child sa = Inr ((), sb)
        \<and> refs sb child = Some 2
        \<and> forkThread_parent contextRuntimeData child h u = Inr ((i, contextRuntimeData), sb)
        \<and> map_of (threads sb) i = Some (Some child)
        \<and> currentThread sb = currentThread u \<and> \<not> threadsMutex sb
        \<and> (\<exists>t. map_of (heap sb) child = Some t \<and> numRefs t = 2)"
    if mu: "\<not> threadsMutex u"
      and ffu: "firstFreeIndex (map fst (threads u)) threads_minIndex threads_maxIndex = Some i"
      and liveu: "map_of (heap u) child = Some t" and nu: "numRefs t = 2"
    for u t
  proof -
    define t1 where "t1 = t\<lparr>platformThread := Some h\<rparr>"
    define u1 where "u1 = u\<lparr>heap := AList.update child t1 (heap u)\<rparr>"
    define ta where "ta = t1\<lparr>numRefs := numRefs t1 + 1, thread_id := i\<rparr>"
    define sa where "sa = u1\<lparr>heap := AList.update child ta (heap u1),
                        threads := (i, Some child) # threads u1\<rparr>"
    define sb where "sb = sa\<lparr>heap := AList.update child (ta\<lparr>numRefs := numRefs ta - 1\<rparr>) (heap sa)\<rparr>"
    have a: "modifyThread child (\<lambda>t. t\<lparr>platformThread := Some h\<rparr>) u = Inr ((), u1)"
      using liveu by (simp add: modifyThread_def u1_def t1_def)
    have b: "allocateThreadId child u1 = Inr (i, sa)"
      unfolding sa_def ta_def
      by (rule allocateThreadId_eq) (simp_all add: u1_def mu ffu update_conv')
    have c: "removeRef child sa = Inr ((), sb)"
      unfolding sb_def
      by (rule removeRef_eq) (simp_all add: sa_def update_conv' ta_def t1_def nu)
    have d: "forkThread_parent contextRuntimeData child h u = Inr ((i, contextRuntimeData), sb)"
      by (simp add: forkThread_parent_def a b c)
    show ?thesis
      using a b c d nu mu
      by (auto simp: refs_def sa_def sb_def u1_def ta_def t1_def update_conv')
  qed
  \<comment> \<open>the two steps of a child continuation from a state \<open>u\<close> with count 2\<close>
  have child_steps:
    "\<exists>sa sb. setCurrentThread h (Some child) u = Inr ((), sa)
        \<and> refs sa child = Some 3 \<and> currentThread sa h = Some child
        \<and> removeRef child sa = Inr ((), sb)
        \<and> refs sb child = Some 2
        \<and> forkThread_child h child c u = Inr ((0, c), sb)
        \<and> currentThread sb h = Some child
        \<and> threads sb = threads u \<and> \<not> threadsMutex sb
        \<and> (\<exists>t. map_of (heap sb) child = Some t \<and> numRefs t = 2)"
    if mu: "\<not> threadsMutex u" and oldu: "currentThread u h = None"
      and liveu: "map_of (heap u) child = Some t" and nu: "numRefs t = 2"
    for u t
  proof -
    define ta where "ta = t\<lparr>numRefs := numRefs t + 1\<rparr>"
    define sa where "sa = u\<lparr>currentThread := (currentThread u)(h := Some child),
                 heap := AList.update child ta (heap u)\<rparr>"
    define sb where "sb = sa\<lparr>heap := AList.update child (ta\<lparr>numRefs := numRefs ta - 1\<rparr>) (heap sa)\<rparr>"
    have a: "setCurrentThread h (Some child) u = Inr ((), sa)"
      unfolding sa_def ta_def by (rule setCurrentThread_eq [OF oldu liveu])
    have b: "removeRef child sa = Inr ((), sb)"
      unfolding sb_def
      by (rule removeRef_eq) (simp_all add: sa_def update_conv' ta_def nu)
    have d: "forkThread_child h child c u = Inr ((0, c), sb)"
      by (simp add: forkThread_child_def a b)
    show ?thesis
      using a b d nu mu
      by (auto simp: refs_def sa_def sb_def ta_def update_conv')
  qed
  have nt2: "numRefs t2 = 2" by (simp add: t2_def)
  have first: "\<exists>sa sb sc sd.
          bindE (modifyThread child (\<lambda>t. t\<lparr>platformThread := Some h\<rparr>) s2)
            (\<lambda>_. allocateThreadId child) = Inr (i, sa)
        \<and> refs sa child = Some 3 \<and> map_of (threads sa) i = Some (Some child)
        \<and> removeRef child sa = Inr ((), sb)
        \<and> refs sb child = Some 2
        \<and> forkThread_parent contextRuntimeData child h s2 = Inr ((i, contextRuntimeData), sb)
        \<and> setCurrentThread h (Some child) sb = Inr ((), sc)
        \<and> refs sc child = Some 3 \<and> currentThread sc h = Some child
        \<and> removeRef child sc = Inr ((), sd)
        \<and> refs sd child = Some 2
        \<and> forkThread_child h child c sb = Inr ((0, c), sd)
        \<and> map_of (threads sd) i = Some (Some child) \<and> currentThread sd h = Some child"
  proof -
    from parent_steps [OF m2 ff2 live2 nt2] obtain sa sb t where
      p: "bindE (modifyThread child (\<lambda>t. t\<lparr>platformThread := Some h\<rparr>) s2)
            (\<lambda>_. allocateThreadId child) = Inr (i, sa)"
        "refs sa child = Some 3" "map_of (threads sa) i = Some (Some child)"
        "removeRef child sa = Inr ((), sb)" "refs sb child = Some 2"
        "forkThread_parent contextRuntimeData child h s2 = Inr ((i, contextRuntimeData), sb)"
        "map_of (threads sb) i = Some (Some child)"
        "currentThread sb = currentThread s2" "\<not> threadsMutex sb"
        "map_of (heap sb) child = Some t" "numRefs t = 2"
      by blast
    have oldb: "currentThread sb h = None" using p(8) old2 by simp
    from child_steps [OF p(9) oldb p(10) p(11)] obtain sc sd where
      q: "setCurrentThread h (Some child) sb = Inr ((), sc)"
        "refs sc child = Some 3" "currentThread sc h = Some child"
        "removeRef child sc = Inr ((), sd)" "refs sd child = Some 2"
        "forkThread_child h child c sb = Inr ((0, c), sd)"
        "currentThread sd h = Some child" "threads sd = threads sb"
      by blast
    show ?thesis
      using p(1-7) q by (intro exI [of _ sa] exI [of _ sb] exI [of _ sc] exI [of _ sd]) simp
  qed
  have second: "\<exists>sa sb sc sd.
          setCurrentThread h (Some child) s2 = Inr ((), sa)
        \<and> refs sa child = Some 3 \<and> currentThread sa h = Some child
        \<and> removeRef child sa = Inr ((), sb)
        \<and> refs sb child = Some 2
        \<and> forkThread_child h child c s2 = Inr ((0, c), sb)
        \<and> bindE (modifyThread child (\<lambda>t. t\<lparr>platformThread := Some h\<rparr>) sb)
            (\<lambda>_. allocateThreadId child) = Inr (i, sc)
        \<and> refs sc child = Some 3 \<and> map_of (threads sc) i = Some (Some child)
        \<and> removeRef child sc = Inr ((), sd)
        \<and> refs sd child = Some 2
        \<and> forkThread_parent contextRuntimeData child h sb = Inr ((i, contextRuntimeData), sd)
        \<and> map_of (threads sd) i = Some (Some child) \<and> currentThread sd h = Some child"
  proof -
    from child_steps [OF m2 old2 live2 nt2] obtain sa sb t where
      q: "setCurrentThread h (Some child) s2 = Inr ((), sa)"
        "refs sa child = Some 3" "currentThread sa h = Some child"
        "removeRef child sa = Inr ((), sb)" "refs sb child = Some 2"
        "forkThread_child h child c s2 = Inr ((0, c), sb)"
        "currentThread sb h = Some child" "threads sb = threads s2" "\<not> threadsMutex sb"
        "map_of (heap sb) child = Some t" "numRefs t = 2"
      by blast
    have ffb: "firstFreeIndex (map fst (threads sb)) threads_minIndex threads_maxIndex = Some i"
      using ff2 q(8) by simp
    from parent_steps [OF q(9) ffb q(10) q(11)] obtain sc sd where
      p: "bindE (modifyThread child (\<lambda>t. t\<lparr>platformThread := Some h\<rparr>) sb)
            (\<lambda>_. allocateThreadId child) = Inr (i, sc)"
        "refs sc child = Some 3" "map_of (threads sc) i = Some (Some child)"
        "removeRef child sc = Inr ((), sd)" "refs sd child = Some 2"
        "forkThread_parent contextRuntimeData child h sb = Inr ((i, contextRuntimeData), sd)"
        "map_of (threads sd) i = Some (Some child)"
        "currentThread sd = currentThread sb"
      by blast
    show ?thesis
      using q(1-7) p by (intro exI [of _ sa] exI [of _ sb] exI [of _ sc] exI [of _ sd]) simp
  qed
  have n0: "numRefs (new_Thread c (entryFunction parent) (argument parent)) = 0"
    by (simp add: new_Thread_def)
  show ?thesis
    using pre fresh_child n0 r1 fk r2 first second
    by (intro exI [of _ child] exI [of _ c] exI [of _ s1] exI [of _ h] exI [of _ s2] exI [of _ i])
       simp
qed

theorem forkThread_reference_pairing_witness:
  "currentThread ex_state2 1 = Some 1
   \<and> map_of (heap ex_state2) 1 = Some ex_thread
   \<and> getCompartmentFromContext 1 ex_state2 = Some 7
   \<and> \<not> threadsMutex ex_state2
   \<and> \<not> IndexMap_contains (threads ex_state2) 2
   \<and> (\<exists>child c s1. forkThread_prefix 1 1 ex_state2 = Inr ((child, c), s1)
          \<and> refs s1 child = Some 2)"
proof -
  have a: "currentThread ex_state2 1 = Some 1"
    and b: "map_of (heap ex_state2) 1 = Some ex_thread"
    and c: "getCompartmentFromContext 1 ex_state2 = Some 7"
    and d: "\<not> threadsMutex ex_state2"
    and e: "(2::Uptr) \<noteq> 0 \<and> \<not> IndexMap_contains (threads ex_state2) 2"
    by (simp_all add: ex_state2_def ex_state1_def getCompartmentFromContext_def
          IndexMap_contains_def)
  from forkThread_reference_pairing [OF a b c d e]
  show ?thesis using a b c d e by blast
qed

section \<open>A successful createThread (C6)\<close>

lemma threadEntry_eq:
  assumes old: "currentThread s self = None"
    and live: "map_of (heap s) p = Some t"
    and n: "numRefs t \<noteq> 0"
  shows "threadEntry invokeFunctionUnchecked self p s =
     Inr (invokeFunctionUnchecked (thread_context t) (entryFunction t) (argument t),
          s\<lparr>currentThread := (currentThread s)(self := Some p)\<rparr>)"
  using old live n
  by (simp add: threadEntry_def setCurrentThread_def Let_def
        IntrusiveSharedPtr_acquire_def IntrusiveSharedPtr_release_def addRef_def removeRef_def
        readThread_def update_conv' update_last update_triv)

lemma firstFreeIndex_ex_state0:
  "firstFreeIndex (map fst (threads ex_state0)) threads_minIndex threads_maxIndex = Some 1"
  by (simp add: firstFreeIndex.simps [of _ 1] ex_state0_def threads_minIndex_def
        threads_maxIndex_def UINTPTR_MAX_def)

lemma createThread_ex_state0:
  "createThread 0 (Some ex_function) 42 ex_state0 = Inr (1, ex_state1)"
  by (subst createThread_eq [where cmpt = 7 and i = 1])
     (simp_all add: firstFreeIndex_ex_state0,
      simp_all add: ex_function_def ex_state0_def ex_state1_def
        ex_thread_def getCompartmentFromContext_def fresh_def)

text \<open>
  Claim C6 as stated has the new context cloned. On the example state the context
  that \<open>createThread\<close> gives the new object is one made by \<open>createContext\<close>, not a
  clone of the caller's context 0, the only context there was.
\<close>

theorem createThread_creates_context:
  "createThread 0 (Some ex_function) 42 ex_state0 = Inr (1, ex_state1)
   \<and> map_of (heap ex_state1) 1 = Some ex_thread
   \<and> map_option origin (map_of (contexts ex_state1) (thread_context ex_thread)) = Some Created
   \<and> Created \<noteq> ClonedFrom 0"
  using createThread_ex_state0 by (simp add: ex_state1_def ex_thread_def)

lemma createThread_Inr:
  assumes "createThread contextRuntimeData fp entryArgument s = Inr (i, s')"
  shows "\<exists>f cmpt. fp = Some f \<and> encodedType f = \<lparr>results = [i64], params = [i32]\<rparr>
           \<and> getCompartmentFromContext contextRuntimeData s = Some cmpt
           \<and> \<not> threadsMutex s
           \<and> firstFreeIndex (map fst (threads s)) threads_minIndex threads_maxIndex = Some i"
proof -
  obtain f where fp: "fp = Some f"
    using assms by (cases fp) (auto simp: createThread_def)
  have ty: "encodedType f = \<lparr>results = [i64], params = [i32]\<rparr>"
    using assms fp by (auto simp: createThread_def split: if_splits)
  obtain cmpt where cm: "getCompartmentFromContext contextRuntimeData s = Some cmpt"
    using assms fp ty
    by (cases "getCompartmentFromContext contextRuntimeData s") (auto simp: createThread_def)
  define s2 where "s2 = snd (new_object
       (new_Thread (fst (createContext cmpt s)) f (Value_i32 entryArgument))
       (snd (createContext cmpt s)))"
  define p where "p = fst (new_object
       (new_Thread (fst (createContext cmpt s)) f (Value_i32 entryArgument))
       (snd (createContext cmpt s)))"
  have "\<exists>i0 s3. allocateThreadId p s2 = Inr (i0, s3)"
    using assms fp ty cm
    by (auto simp: createThread_def bindE_eq_Inr s2_def p_def split: prod.splits)
  then obtain i0 s3 where al: "allocateThreadId p s2 = Inr (i0, s3)" by blast
  have fr: "threadsMutex s2 = threadsMutex s" "threads s2 = threads s"
    by (simp_all add: s2_def new_object_def createContext_def Let_def)
  from allocateThreadId_Inr [OF al] fr
  have m: "\<not> threadsMutex s"
    and ff: "firstFreeIndex (map fst (threads s)) threads_minIndex threads_maxIndex = Some i0"
    by simp_all
  have "i = i0"
    using assms fp createThread_eq [OF ty cm m ff, of entryArgument] by simp
  then show ?thesis
    using fp ty cm m ff by simp
qed

text \<open>
  Claim C6, amended. On every successful \<open>createThread\<close> call the entry function is
  non-null of type \<open>(i32) -> i64\<close>; a context that did not exist before is created
  (with \<open>createContext\<close>, not as a clone) in the compartment of the calling context; a
  control object that did not exist before holds that context, the entry function
  and the argument; the returned id is nonzero, was not in use, and is mapped to
  the object; the object's count is 2, one for the registry slot and one for the
  spawned OS thread, whose handle the object holds and whose start argument is the
  object. The trampoline of that OS thread, for any guest function, installs the
  object as the thread's \<open>currentThread\<close>, leaves the count at 2 (one reference taken
  by \<open>currentThread\<close>, the spawn-time one released), and returns the result of the
  entry function invoked in the object's context on the argument.
\<close>

theorem createThread_success:
  assumes ok: "createThread contextRuntimeData fp entryArgument s = Inr (i, s')"
  shows "\<exists>f cmpt p c h.
      fp = Some f \<and> encodedType f = \<lparr>results = [i64], params = [i32]\<rparr>
    \<and> getCompartmentFromContext contextRuntimeData s = Some cmpt
    \<and> i \<noteq> 0 \<and> \<not> IndexMap_contains (threads s) i
    \<and> map_of (contexts s) c = None
    \<and> map_of (contexts s') c = Some \<lparr>compartment = cmpt, origin = Created\<rparr>
    \<and> map_of (heap s) p = None
    \<and> map_of (heap s') p
         = Some \<lparr>thread_id = i, numRefs = 2, platformThread = Some h, thread_context = c,
                 entryFunction = f, argument = Value_i32 entryArgument\<rparr>
    \<and> map_of (threads s') i = Some (Some p)
    \<and> map_of (osThreads s) h = None
    \<and> map_of (osThreads s') h
         = Some \<lparr>status = Running, startArg = Some p, handleValid = True\<rparr>
    \<and> currentThread s' h = None
    \<and> (\<forall>invokeFunctionUnchecked. \<exists>s''.
          threadEntry invokeFunctionUnchecked h p s'
            = Inr (invokeFunctionUnchecked c f (Value_i32 entryArgument), s'')
        \<and> currentThread s'' h = Some p
        \<and> refs s'' p = Some 2
        \<and> map_of (threads s'') i = Some (Some p))"
proof -
  from createThread_Inr [OF ok] obtain f cmpt where fp: "fp = Some f"
    and ty: "encodedType f = \<lparr>results = [i64], params = [i32]\<rparr>"
    and cm: "getCompartmentFromContext contextRuntimeData s = Some cmpt"
    and m: "\<not> threadsMutex s"
    and ff: "firstFreeIndex (map fst (threads s)) threads_minIndex threads_maxIndex = Some i"
    by blast
  have nz: "i \<noteq> 0" by (rule firstFreeIndex_threads_nonzero [OF ff])
  have nu: "\<not> IndexMap_contains (threads s) i"
    using firstFreeIndex_Some [OF ff] by (simp add: IndexMap_contains_iff)
  define c where "c = fresh (map fst (contexts s))"
  define p where "p = fresh (map fst (heap s))"
  define h where "h = fresh (map fst (osThreads s))"
  define t where "t = \<lparr>thread_id = i, numRefs = 2, platformThread = Some h, thread_context = c,
                 entryFunction = f, argument = Value_i32 entryArgument\<rparr>"
  have s': "s' = s\<lparr>contexts := AList.update c \<lparr>compartment = cmpt, origin = Created\<rparr> (contexts s),
               heap := AList.update p t (heap s),
               threads := (i, Some p) # threads s,
               osThreads := AList.update h
                              \<lparr>status = Running, startArg = Some p, handleValid = True\<rparr> (osThreads s),
               currentThread := (currentThread s)(h := None)\<rparr>"
    using ok fp createThread_eq [OF ty cm m ff, of entryArgument]
    by (simp add: t_def c_def p_def h_def)
  have old: "currentThread s' h = None" by (simp add: s')
  have live: "map_of (heap s') p = Some t" by (simp add: s' update_conv')
  have n: "numRefs t \<noteq> 0" by (simp add: t_def)
  have te: "\<forall>invokeFunctionUnchecked. \<exists>s''.
          threadEntry invokeFunctionUnchecked h p s'
            = Inr (invokeFunctionUnchecked c f (Value_i32 entryArgument), s'')
        \<and> currentThread s'' h = Some p
        \<and> refs s'' p = Some 2
        \<and> map_of (threads s'') i = Some (Some p)"
    using live by (simp add: threadEntry_eq [OF old live n] refs_def) (simp add: t_def s')
  show ?thesis
    using fp ty cm nz nu old te
    by (intro exI [of _ f] exI [of _ cmpt] exI [of _ p] exI [of _ c] exI [of _ h])
       (simp add: s' update_conv' c_def p_def h_def map_of_fresh t_def)
qed

theorem createThread_success_witness:
  "createThread 0 (Some ex_function) 42 ex_state0 = Inr (1, ex_state1)
   \<and> (\<exists>p c h. map_of (heap ex_state1) p
         = Some \<lparr>thread_id = 1, numRefs = 2, platformThread = Some h, thread_context = c,
                 entryFunction = ex_function, argument = Value_i32 42\<rparr>
       \<and> map_of (contexts ex_state1) c = Some \<lparr>compartment = 7, origin = Created\<rparr>)"
proof -
  note ok = createThread_ex_state0
  have cm: "getCompartmentFromContext 0 ex_state0 = Some 7"
    by (simp add: getCompartmentFromContext_def ex_state0_def)
  from createThread_success [OF ok] cm
  show ?thesis using ok by auto
qed

section \<open>Allocation of thread ids (C8)\<close>

lemma addRef_frame:
  "addRef p n s = Inr (u, s') \<Longrightarrow>
     threads s' = threads s \<and> threadsMutex s' = threadsMutex s
     \<and> currentThread s' = currentThread s \<and> contexts s' = contexts s
     \<and> osThreads s' = osThreads s"
  by (auto simp: addRef_def split: option.splits)

lemma removeRef_frame:
  "removeRef p s = Inr (u, s') \<Longrightarrow>
     threads s' = threads s \<and> threadsMutex s' = threadsMutex s
     \<and> currentThread s' = currentThread s \<and> contexts s' = contexts s
     \<and> osThreads s' = osThreads s"
  by (auto simp: removeRef_def split: option.splits if_splits)

lemma setCurrentThread_frame:
  assumes "setCurrentThread self ptr s = Inr (u, s')"
  shows "threads s' = threads s \<and> threadsMutex s' = threadsMutex s"
proof -
  from assms obtain s1 where
    a: "IntrusiveSharedPtr_acquire ptr (s\<lparr>currentThread := (currentThread s)(self := ptr)\<rparr>)
          = Inr ((), s1)"
    and b: "IntrusiveSharedPtr_release (currentThread s self) s1 = Inr (u, s')"
    by (auto simp: setCurrentThread_def Let_def bindE_eq_Inr)
  have "threads s1 = threads s \<and> threadsMutex s1 = threadsMutex s"
    using a addRef_frame [of _ 1 "s\<lparr>currentThread := (currentThread s)(self := ptr)\<rparr>" "()" s1]
    by (cases ptr) (auto simp: IntrusiveSharedPtr_acquire_def)
  then show ?thesis
    using IntrusiveSharedPtr_release_frame [OF b] by simp
qed

lemma forkThread_child_frame:
  assumes "forkThread_child self child c s = Inr (r, s')"
  shows "threads s' = threads s \<and> threadsMutex s' = threadsMutex s"
proof -
  from assms obtain s1 where a: "setCurrentThread self (Some child) s = Inr ((), s1)"
    and b: "removeRef child s1 = Inr ((), s')"
    by (auto simp: forkThread_child_def bindE_eq_Inr)
  show ?thesis
    using setCurrentThread_frame [OF a] removeRef_frame [OF b] by simp
qed

lemma forkThread_parent_Inr:
  assumes "forkThread_parent contextRuntimeData child h s = Inr ((i, c1), s')"
  shows "\<not> threadsMutex s
       \<and> firstFreeIndex (map fst (threads s)) threads_minIndex threads_maxIndex = Some i
       \<and> threads s' = (i, Some child) # threads s \<and> \<not> threadsMutex s'"
proof -
  from assms obtain s1 s2 where
    a: "modifyThread child (\<lambda>t. t\<lparr>platformThread := Some h\<rparr>) s = Inr ((), s1)"
    and b: "allocateThreadId child s1 = Inr (i, s2)"
    and c: "removeRef child s2 = Inr ((), s')"
    by (auto simp: forkThread_parent_def bindE_eq_Inr)
  from allocateThreadId_Inr [OF b] have
    "\<not> threadsMutex s1"
    "firstFreeIndex (map fst (threads s1)) threads_minIndex threads_maxIndex = Some i"
    "threads s2 = (i, Some child) # threads s1" "\<not> threadsMutex s2"
    by auto
  then show ?thesis
    using modifyThread_frame [OF a] removeRef_frame [OF c] by simp
qed

lemma forkThread_prefix_frame:
  assumes "forkThread_prefix self contextRuntimeData s = Inr (r, s')"
  shows "threads s' = threads s \<and> threadsMutex s' = threadsMutex s"
proof -
  obtain cmpt where cm: "getCompartmentFromContext contextRuntimeData s = Some cmpt"
    using assms
    by (cases "getCompartmentFromContext contextRuntimeData s") (auto simp: forkThread_prefix_def)
  obtain cur where cur: "currentThread s self = Some cur"
    using assms cm
    by (cases "currentThread s self")
       (auto simp: forkThread_prefix_def cloneContext_def Let_def)
  obtain parent where live: "map_of (heap s) cur = Some parent"
    using assms cm cur
    by (cases "map_of (heap s) cur")
       (auto simp: forkThread_prefix_def cloneContext_def Let_def readThread_def)
  show ?thesis
    using assms forkThread_prefix_eq [OF cm cur live] by auto
qed

lemma forkThread_Inr:
  assumes "forkThread order self contextRuntimeData s = Inr (((i, c1), r2), s')"
  shows "\<not> threadsMutex s
       \<and> firstFreeIndex (map fst (threads s)) threads_minIndex threads_maxIndex = Some i
       \<and> (\<exists>child. threads s' = (i, Some child) # threads s) \<and> \<not> threadsMutex s'"
proof -
  from assms obtain child c s1 where
    pre: "forkThread_prefix self contextRuntimeData s = Inr ((child, c), s1)"
    and rest: "(case Platform_forkCurrentThread s1 of (h, s2) \<Rightarrow>
       (case order of
          ParentFirst \<Rightarrow>
            bindE (forkThread_parent contextRuntimeData child h s2) (\<lambda>rp s3.
            bindE (forkThread_child h child c s3) (\<lambda>rc s4.
              Inr ((rp, rc), s4)))
        | ChildFirst \<Rightarrow>
            bindE (forkThread_child h child c s2) (\<lambda>rc s3.
            bindE (forkThread_parent contextRuntimeData child h s3) (\<lambda>rp s4.
              Inr ((rp, rc), s4))))) = Inr (((i, c1), r2), s')"
    by (auto simp: forkThread_def bindE_eq_Inr [where r = "forkThread_prefix self contextRuntimeData s"])
  obtain h s2 where fk: "Platform_forkCurrentThread s1 = (h, s2)"
    by (cases "Platform_forkCurrentThread s1")
  have fr2: "threads s2 = threads s \<and> threadsMutex s2 = threadsMutex s"
    using fk forkThread_prefix_frame [OF pre]
    by (auto simp: Platform_forkCurrentThread_def Platform_spawn_def Let_def)
  show ?thesis
  proof (cases order)
    case ParentFirst
    with rest fk obtain s3 where
      p: "forkThread_parent contextRuntimeData child h s2 = Inr ((i, c1), s3)"
      and q: "forkThread_child h child c s3 = Inr (r2, s')"
      by (auto simp: bindE_eq_Inr)
    show ?thesis
      using forkThread_parent_Inr [OF p] forkThread_child_frame [OF q] fr2 by auto
  next
    case ChildFirst
    with rest fk obtain s3 where
      q: "forkThread_child h child c s2 = Inr (r2, s3)"
      and p: "forkThread_parent contextRuntimeData child h s3 = Inr ((i, c1), s')"
      by (auto simp: bindE_eq_Inr)
    show ?thesis
      using forkThread_parent_Inr [OF p] forkThread_child_frame [OF q] fr2 by auto
  qed
qed

lemma joinThread_wait_frame:
  assumes "joinThread_wait p s = Inr (r, s')"
  shows "threads s' = threads s \<and> threadsMutex s' = threadsMutex s"
proof -
  from assms obtain t where t: "readThread p s = Inr (t, s)"
    by (auto simp: joinThread_wait_def bindE_eq_Inr readThread_Inr)
  show ?thesis
  proof (cases "Platform_joinThread (platformThread t) s")
    case (Inl es)
    then show ?thesis
      using assms t by (cases es) (auto simp: joinThread_wait_def bindE_eq_Inr)
  next
    case (Inr rs)
    obtain ro s2 where rs: "rs = (ro, s2)" by (cases rs)
    note pj = Inr [unfolded rs]
    show ?thesis
    proof (cases ro)
      case None
      then show ?thesis
        using assms t pj Platform_joinThread_frame [OF pj]
        by (auto simp: joinThread_wait_def)
    next
      case (Some code)
      with assms t pj obtain s3 where
        a: "modifyThread p (\<lambda>t. t\<lparr>platformThread := None\<rparr>) s2 = Inr ((), s3)"
        and b: "IntrusiveSharedPtr_release (Some p) s3 = Inr ((), s')"
        by (auto simp: joinThread_wait_def bindE_eq_Inr)
      show ?thesis
        using Platform_joinThread_frame [OF pj] modifyThread_frame [OF a]
          IntrusiveSharedPtr_release_frame [OF b]
        by simp
    qed
  qed
qed

lemma joinThread_Inr_frame:
  assumes "joinThread threadId s = Inr (r, s')"
  shows "\<not> threadsMutex s' \<and> threads s' = AList.delete threadId (threads s)"
proof -
  from assms obtain p s1 where rm: "removeThreadById threadId s = Inr (p, s1)"
    and w: "joinThread_wait p s1 = Inr (r, s')"
    by (auto simp: joinThread_def bindE_eq_Inr)
  from removeThreadById_Inr [OF rm]
  have "\<not> threadsMutex s1" "threads s1 = AList.delete threadId (threads s)"
    by auto
  then show ?thesis
    using joinThread_wait_frame [OF w] by simp
qed


lemma createThread_Inr_threads:
  assumes ok: "createThread contextRuntimeData fp entryArgument s = Inr (i, s')"
  shows "\<exists>p. threads s' = (i, Some p) # threads s"
proof -
  from createThread_Inr [OF ok] obtain f cmpt where fp: "fp = Some f"
    and ty: "encodedType f = \<lparr>results = [i64], params = [i32]\<rparr>"
    and cm: "getCompartmentFromContext contextRuntimeData s = Some cmpt"
    and m: "\<not> threadsMutex s"
    and ff: "firstFreeIndex (map fst (threads s)) threads_minIndex threads_maxIndex = Some i"
    by blast
  show ?thesis
    using ok fp createThread_eq [OF ty cm m ff, of entryArgument] by auto
qed

lemma firstFreeIndex_threads_smallest:
  assumes ff: "firstFreeIndex (map fst (threads s)) threads_minIndex threads_maxIndex = Some i"
  shows "i \<noteq> 0 \<and> \<not> IndexMap_contains (threads s) i
         \<and> (\<forall>j. j \<noteq> 0 \<and> j < i \<longrightarrow> IndexMap_contains (threads s) j)"
proof -
  have one: "\<And>j::Uptr. j \<noteq> 0 \<Longrightarrow> 1 \<le> j"
    by unat_arith
  show ?thesis
    using firstFreeIndex_Some [OF ff] firstFreeIndex_threads_nonzero [OF ff] one
    by (auto simp: IndexMap_contains_iff threads_minIndex_def)
qed

lemma freed_id_reusable:
  assumes nz: "threadId \<noteq> 0" and fr: "threads s1 = AList.delete threadId (threads s)"
  shows "\<not> IndexMap_contains (threads s1) threadId
       \<and> (\<exists>i. firstFreeIndex (map fst (threads s1)) threads_minIndex threads_maxIndex = Some i)
       \<and> (\<forall>i. firstFreeIndex (map fst (threads s1)) threads_minIndex threads_maxIndex = Some i
              \<longrightarrow> i \<le> threadId)"
proof -
  have nc: "\<not> IndexMap_contains (threads s1) threadId"
    by (simp add: fr IndexMap_contains_def delete_conv')
  have ex: "\<exists>i. firstFreeIndex (map fst (threads s1)) threads_minIndex threads_maxIndex = Some i"
    by (rule firstFreeIndex_threads_exists [OF nz nc])
  have le: "i \<le> threadId"
    if "firstFreeIndex (map fst (threads s1)) threads_minIndex threads_maxIndex = Some i" for i
  proof (rule ccontr)
    assume "\<not> i \<le> threadId"
    then have "threadId < i" by simp
    then show False
      using firstFreeIndex_threads_smallest [OF that] nz nc by blast
  qed
  show ?thesis using nc ex le by blast
qed

text \<open>
  Claim C8. The index the registry hands out is the smallest nonzero index not in
  use, and it is never zero. Every id that \<open>allocateThreadId\<close>, \<open>createThread\<close> or the
  parent continuation of \<open>forkThread\<close> returns is that index: nonzero, not in use
  before the call, and the registry after the call is the registry before it with
  the id mapped to the new object. After a successful \<open>detachThread(id)\<close> or
  \<open>joinThread(id)\<close> the id is not in use, the allocator has a free index, and the
  index it would hand out next is at most \<open>id\<close>: the freed id can be given out again.
\<close>

theorem thread_id_allocation:
  "(\<forall>i. firstFreeIndex (map fst (threads s)) threads_minIndex threads_maxIndex = Some i \<longrightarrow>
        i \<noteq> 0 \<and> \<not> IndexMap_contains (threads s) i
      \<and> (\<forall>j. j \<noteq> 0 \<and> j < i \<longrightarrow> IndexMap_contains (threads s) j))
   \<and> (\<forall>p i s'. allocateThreadId p s = Inr (i, s') \<longrightarrow>
        firstFreeIndex (map fst (threads s)) threads_minIndex threads_maxIndex = Some i
      \<and> threads s' = (i, Some p) # threads s)
   \<and> (\<forall>contextRuntimeData fp entryArgument i s'.
        createThread contextRuntimeData fp entryArgument s = Inr (i, s') \<longrightarrow>
        firstFreeIndex (map fst (threads s)) threads_minIndex threads_maxIndex = Some i
      \<and> (\<exists>p. threads s' = (i, Some p) # threads s))
   \<and> (\<forall>order self contextRuntimeData i c1 r2 s'.
        forkThread order self contextRuntimeData s = Inr (((i, c1), r2), s') \<longrightarrow>
        firstFreeIndex (map fst (threads s)) threads_minIndex threads_maxIndex = Some i
      \<and> (\<exists>p. threads s' = (i, Some p) # threads s))
   \<and> (\<forall>threadId s1.
        (detachThread threadId s = Inr ((), s1)
         \<or> (\<exists>code. joinThread threadId s = Inr (Some code, s1))) \<longrightarrow>
        \<not> IndexMap_contains (threads s1) threadId
      \<and> (\<exists>i. firstFreeIndex (map fst (threads s1)) threads_minIndex threads_maxIndex = Some i)
      \<and> (\<forall>i. firstFreeIndex (map fst (threads s1)) threads_minIndex threads_maxIndex = Some i
              \<longrightarrow> i \<le> threadId))"
proof -
  have c1: "\<forall>i. firstFreeIndex (map fst (threads s)) threads_minIndex threads_maxIndex = Some i \<longrightarrow>
        i \<noteq> 0 \<and> \<not> IndexMap_contains (threads s) i
      \<and> (\<forall>j. j \<noteq> 0 \<and> j < i \<longrightarrow> IndexMap_contains (threads s) j)"
    using firstFreeIndex_threads_smallest by blast
  have c2: "\<forall>p i s'. allocateThreadId p s = Inr (i, s') \<longrightarrow>
        firstFreeIndex (map fst (threads s)) threads_minIndex threads_maxIndex = Some i
      \<and> threads s' = (i, Some p) # threads s"
  proof (intro allI impI)
    fix p i s' assume a: "allocateThreadId p s = Inr (i, s')"
    from allocateThreadId_Inr [OF a]
    show "firstFreeIndex (map fst (threads s)) threads_minIndex threads_maxIndex = Some i
      \<and> threads s' = (i, Some p) # threads s"
      by auto
  qed
  have c3: "\<forall>contextRuntimeData fp entryArgument i s'.
        createThread contextRuntimeData fp entryArgument s = Inr (i, s') \<longrightarrow>
        firstFreeIndex (map fst (threads s)) threads_minIndex threads_maxIndex = Some i
      \<and> (\<exists>p. threads s' = (i, Some p) # threads s)"
  proof (intro allI impI)
    fix contextRuntimeData fp entryArgument i s'
    assume a: "createThread contextRuntimeData fp entryArgument s = Inr (i, s')"
    show "firstFreeIndex (map fst (threads s)) threads_minIndex threads_maxIndex = Some i
      \<and> (\<exists>p. threads s' = (i, Some p) # threads s)"
      using createThread_Inr [OF a] createThread_Inr_threads [OF a] by blast
  qed
  have c4: "\<forall>order self contextRuntimeData i c1 r2 s'.
        forkThread order self contextRuntimeData s = Inr (((i, c1), r2), s') \<longrightarrow>
        firstFreeIndex (map fst (threads s)) threads_minIndex threads_maxIndex = Some i
      \<and> (\<exists>p. threads s' = (i, Some p) # threads s)"
  proof (intro allI impI)
    fix order self contextRuntimeData i c1 r2 s'
    assume a: "forkThread order self contextRuntimeData s = Inr (((i, c1), r2), s')"
    from forkThread_Inr [OF a]
    show "firstFreeIndex (map fst (threads s)) threads_minIndex threads_maxIndex = Some i
      \<and> (\<exists>p. threads s' = (i, Some p) # threads s)"
      by blast
  qed
  have c5: "\<forall>threadId s1.
        (detachThread threadId s = Inr ((), s1)
         \<or> (\<exists>code. joinThread threadId s = Inr (Some code, s1))) \<longrightarrow>
        \<not> IndexMap_contains (threads s1) threadId
      \<and> (\<exists>i. firstFreeIndex (map fst (threads s1)) threads_minIndex threads_maxIndex = Some i)
      \<and> (\<forall>i. firstFreeIndex (map fst (threads s1)) threads_minIndex threads_maxIndex = Some i
              \<longrightarrow> i \<le> threadId)"
  proof (intro allI impI)
    fix threadId s1
    assume a: "detachThread threadId s = Inr ((), s1)
         \<or> (\<exists>code. joinThread threadId s = Inr (Some code, s1))"
    have fr: "threads s1 = AList.delete threadId (threads s)"
      using a detachThread_Inr_frame joinThread_Inr_frame by blast
    have "\<exists>p s0. removeThreadById threadId s = Inr (p, s0)"
      using a by (auto simp: detachThread_def joinThread_def bindE_eq_Inr)
    then have nz: "threadId \<noteq> 0"
      using removeThreadById_Inr by blast
    show "\<not> IndexMap_contains (threads s1) threadId
      \<and> (\<exists>i. firstFreeIndex (map fst (threads s1)) threads_minIndex threads_maxIndex = Some i)
      \<and> (\<forall>i. firstFreeIndex (map fst (threads s1)) threads_minIndex threads_maxIndex = Some i
              \<longrightarrow> i \<le> threadId)"
      by (rule freed_id_reusable [OF nz fr])
  qed
  show ?thesis
    by (rule conjI [OF c1 conjI [OF c2 conjI [OF c3 conjI [OF c4 c5]]]])
qed


theorem thread_id_allocation_witness:
  "firstFreeIndex (map fst (threads ex_state0)) threads_minIndex threads_maxIndex = Some 1
   \<and> createThread 0 (Some ex_function) 42 ex_state0 = Inr (1, ex_state1)
   \<and> \<not> IndexMap_contains (threads ex_state0) 1
   \<and> (\<exists>p. threads ex_state1 = (1, Some p) # threads ex_state0)
   \<and> (\<exists>s1. detachThread 1 ex_state1 = Inr ((), s1)
         \<and> firstFreeIndex (map fst (threads s1)) threads_minIndex threads_maxIndex = Some 1)"
proof -
  note ff0 = firstFreeIndex_ex_state0
  note ct0 = createThread_ex_state0
  have a: "\<not> IndexMap_contains (threads ex_state0) 1"
    using thread_id_allocation [of ex_state0, THEN conjunct1, rule_format, OF ff0] by simp
  have b: "\<exists>p. threads ex_state1 = (1, Some p) # threads ex_state0"
    using thread_id_allocation [of ex_state0, THEN conjunct2, THEN conjunct2, THEN conjunct1,
            rule_format, OF ct0]
    by simp
  have "\<exists>s1. detachThread 1 ex_state1 = Inr ((), s1)"
    by (simp add: eval_defs)
  then obtain s1 where d: "detachThread 1 ex_state1 = Inr ((), s1)" ..
  then have d': "detachThread 1 ex_state1 = Inr ((), s1)
         \<or> (\<exists>code. joinThread 1 ex_state1 = Inr (Some code, s1))"
    by simp
  from thread_id_allocation [of ex_state1, THEN conjunct2, THEN conjunct2, THEN conjunct2,
         THEN conjunct2, rule_format, OF d']
  obtain i where ff1: "firstFreeIndex (map fst (threads s1)) threads_minIndex threads_maxIndex = Some i"
    and le: "i \<le> 1"
    by blast
  have "i \<noteq> 0"
    using thread_id_allocation [of s1, THEN conjunct1, rule_format, OF ff1] by simp
  with le have "i = 1" by unat_arith
  then show ?thesis
    using ff0 ct0 a b d ff1 by blast
qed

section \<open>exitThread (C10)\<close>

lemma currentThread_destroy_None:
  "currentThread s self = None \<Longrightarrow> currentThread_destroy self s = Inr ((), s)"
proof -
  assume a: "currentThread s self = None"
  then have "(currentThread s)(self := None) = currentThread s"
    by (simp add: fun_upd_idem)
  then show ?thesis
    using a by (simp add: currentThread_destroy_def IntrusiveSharedPtr_release_def)
qed

lemma currentThread_destroy_Some:
  assumes cur: "currentThread s self = Some p"
    and live: "map_of (heap s) p = Some t"
  shows "currentThread_destroy self s =
           Inr ((), s\<lparr>heap := (if numRefs t - 1 = 0 then AList.delete p (heap s)
                                else AList.update p (t\<lparr>numRefs := numRefs t - 1\<rparr>) (heap s)),
                       currentThread := (currentThread s)(self := None)\<rparr>)"
  using cur live
  by (simp add: currentThread_destroy_def IntrusiveSharedPtr_release_def removeRef_def)





section \<open>joinThread on a mapped id (C7)\<close>

lemma IntrusiveSharedPtr_release_eq:
  assumes live: "map_of (heap s) p = Some t"
  shows "\<exists>s'. IntrusiveSharedPtr_release (Some p) s = Inr ((), s')
           \<and> map_of (heap s') p
               = (if numRefs t - 1 = 0 then None else Some (t\<lparr>numRefs := numRefs t - 1\<rparr>))
           \<and> threads s' = threads s \<and> threadsMutex s' = threadsMutex s
           \<and> osThreads s' = osThreads s"
  using live
  by (simp add: IntrusiveSharedPtr_release_def removeRef_def update_conv' delete_conv')

lemma joinThread_wait_Running:
  assumes live: "map_of (heap u) p = Some t1"
    and hd: "Platform_handle (platformThread t1) u = Some (h, ot)"
    and st: "status ot = Running"
  shows "joinThread_wait p u = Inr (None, u)"
  using live hd st
  by (simp add: joinThread_wait_def readThread_def Platform_joinThread_def)

lemma joinThread_wait_Exited:
  assumes live: "map_of (heap u) p = Some t1"
    and hd: "Platform_handle (platformThread t1) u = Some (h, ot)"
    and st: "status ot = Exited code"
  shows "\<exists>u'. joinThread_wait p u = Inr (Some code, u')
           \<and> map_of (heap u') p
               = (if numRefs t1 - 1 = 0 then None
                  else Some (t1\<lparr>platformThread := None, numRefs := numRefs t1 - 1\<rparr>))
           \<and> threads u' = threads u \<and> threadsMutex u' = threadsMutex u"
proof -
  define u2 where "u2 = u\<lparr>osThreads := AList.update h (ot\<lparr>handleValid := False\<rparr>) (osThreads u)\<rparr>"
  define u3 where "u3 = u2\<lparr>heap := AList.update p (t1\<lparr>platformThread := None\<rparr>) (heap u2)\<rparr>"
  have pj: "Platform_joinThread (platformThread t1) u = Inr (Some code, u2)"
    using hd st by (simp add: Platform_joinThread_def u2_def)
  have md: "modifyThread p (\<lambda>t. t\<lparr>platformThread := None\<rparr>) u2 = Inr ((), u3)"
    using live by (simp add: modifyThread_def u2_def u3_def)
  have live3: "map_of (heap u3) p = Some (t1\<lparr>platformThread := None\<rparr>)"
    by (simp add: u3_def update_conv')
  from IntrusiveSharedPtr_release_eq [OF live3] obtain u' where
    rl: "IntrusiveSharedPtr_release (Some p) u3 = Inr ((), u')"
    and h': "map_of (heap u') p
               = (if numRefs t1 - 1 = 0 then None
                  else Some (t1\<lparr>platformThread := None, numRefs := numRefs t1 - 1\<rparr>))"
    and f': "threads u' = threads u3" "threadsMutex u' = threadsMutex u3"
    by auto
  have "joinThread_wait p u = Inr (Some code, u')"
    using live by (simp add: joinThread_wait_def readThread_def pj md rl)
  then show ?thesis
    using h' f' by (auto simp: u3_def u2_def)
qed

lemma joinThread_wait_platformError:
  assumes live: "map_of (heap u) p = Some t1"
    and hd: "Platform_handle (platformThread t1) u = None"
  shows "\<exists>u'. joinThread_wait p u = Inl (platformError, u')
           \<and> map_of (heap u') p
               = (if numRefs t1 - 1 = 0 then None else Some (t1\<lparr>numRefs := numRefs t1 - 1\<rparr>))
           \<and> threads u' = threads u \<and> threadsMutex u' = threadsMutex u"
proof -
  have pj: "Platform_joinThread (platformThread t1) u = Inl (platformError, u)"
    using hd by (simp add: Platform_joinThread_def)
  from IntrusiveSharedPtr_release_eq [OF live] obtain u' where
    rl: "IntrusiveSharedPtr_release (Some p) u = Inr ((), u')"
    and h': "map_of (heap u') p
               = (if numRefs t1 - 1 = 0 then None else Some (t1\<lparr>numRefs := numRefs t1 - 1\<rparr>))"
    and f': "threads u' = threads u" "threadsMutex u' = threadsMutex u"
    by auto
  have "joinThread_wait p u = Inl (platformError, u')"
    using live by (simp add: joinThread_wait_def readThread_def pj rl)
  then show ?thesis
    using h' f' by auto
qed

lemma removeThreadById_eq:
  assumes m: "\<not> threadsMutex s" and nz: "threadId \<noteq> 0"
    and reg: "map_of (threads s) threadId = Some (Some p)"
    and live: "map_of (heap s) p = Some t" and idt: "thread_id t = threadId"
  shows "removeThreadById threadId s =
           Inr (p, s\<lparr>threads := AList.delete threadId (threads s),
                     heap := AList.update p (t\<lparr>thread_id := UINTPTR_MAX\<rparr>) (heap s)\<rparr>)"
  using removeThreadById_valid [OF m nz, of ] reg live idt
  by (simp add: IndexMap_contains_def)


lemma Platform_handle_osThreads:
  "osThreads s' = osThreads s \<Longrightarrow> Platform_handle ptr s' = Platform_handle ptr s"
  by (simp add: Platform_handle_def split: option.splits)


lemma Platform_handle_Some:
  "Platform_handle ptr s = Some (h, ot)
   \<longleftrightarrow> ptr = Some h \<and> map_of (osThreads s) h = Some ot \<and> handleValid ot"
  by (auto simp: Platform_handle_def split: option.splits)

lemma Platform_handle_exited:
  assumes hd: "Platform_handle ptr s = Some (h, ot)"
    and os: "osThreads s2
               = AList.map_entry h (\<lambda>ot. ot\<lparr>status := Exited code\<rparr>) (osThreads s)"
  shows "Platform_handle ptr s2 = Some (h, ot\<lparr>status := Exited code\<rparr>)"
  using hd by (simp add: Platform_handle_Some os map_of_map_entry)

lemma join_after_end_without_teardown:
  assumes live: "map_of (heap u) p = Some t1"
    and hd: "Platform_handle (platformThread t1) u = Some (h, ot)"
  shows "\<exists>u2 u'. Platform_threadEnd False h code u = Inr ((), u2)
           \<and> joinThread_wait p u2 = Inr (Some code, u')
           \<and> map_of (heap u') p
               = (if numRefs t1 - 1 = 0 then None
                  else Some (t1\<lparr>platformThread := None, numRefs := numRefs t1 - 1\<rparr>))"
proof -
  define u2 where "u2 = u\<lparr>osThreads :=
       AList.map_entry h (\<lambda>ot. ot\<lparr>status := Exited code\<rparr>) (osThreads u)\<rparr>"
  have te: "Platform_threadEnd False h code u = Inr ((), u2)"
    by (simp add: Platform_threadEnd_def u2_def)
  have live2: "map_of (heap u2) p = Some t1"
    using live by (simp add: u2_def)
  have hd2: "Platform_handle (platformThread t1) u2 = Some (h, ot\<lparr>status := Exited code\<rparr>)"
    by (rule Platform_handle_exited [OF hd]) (simp add: u2_def)
  have st: "status (ot\<lparr>status := Exited code\<rparr>) = Exited code" by simp
  from joinThread_wait_Exited [OF live2 hd2 st] obtain u' where
    "joinThread_wait p u2 = Inr (Some code, u')"
    "map_of (heap u') p
       = (if numRefs t1 - 1 = 0 then None
          else Some (t1\<lparr>platformThread := None, numRefs := numRefs t1 - 1\<rparr>))"
    by blast
  then show ?thesis
    using te by blast
qed

lemma join_after_end_with_teardown:
  assumes live: "map_of (heap u) p = Some t1"
    and hd: "Platform_handle (platformThread t1) u = Some (h, ot)"
    and cur: "currentThread u h = Some p"
    and n: "numRefs t1 - 1 \<noteq> 0"
  shows "\<exists>u2 u'. Platform_threadEnd True h code u = Inr ((), u2)
           \<and> joinThread_wait p u2 = Inr (Some code, u')
           \<and> map_of (heap u') p
               = (if numRefs t1 - 2 = 0 then None
                  else Some (t1\<lparr>platformThread := None, numRefs := numRefs t1 - 2\<rparr>))"
proof -
  define t2 where "t2 = t1\<lparr>numRefs := numRefs t1 - 1\<rparr>"
  define u2 where "u2 = u\<lparr>heap := AList.update p t2 (heap u),
       currentThread := (currentThread u)(h := None),
       osThreads := AList.map_entry h (\<lambda>ot. ot\<lparr>status := Exited code\<rparr>) (osThreads u)\<rparr>"
  have te: "Platform_threadEnd True h code u = Inr ((), u2)"
    using n by (simp add: Platform_threadEnd_def currentThread_destroy_Some [OF cur live]
                  u2_def t2_def)
  have live2: "map_of (heap u2) p = Some t2"
    by (simp add: u2_def update_conv')
  have hd2: "Platform_handle (platformThread t2) u2 = Some (h, ot\<lparr>status := Exited code\<rparr>)"
    using Platform_handle_exited [OF hd, of u2 code] by (simp add: u2_def t2_def)
  have st: "status (ot\<lparr>status := Exited code\<rparr>) = Exited code" by simp
  have two: "numRefs t1 - 1 - 1 = numRefs t1 - 2" by simp
  from joinThread_wait_Exited [OF live2 hd2 st] obtain u' where
    w: "joinThread_wait p u2 = Inr (Some code, u')"
    and h': "map_of (heap u') p
       = (if numRefs t2 - 1 = 0 then None
          else Some (t2\<lparr>platformThread := None, numRefs := numRefs t2 - 1\<rparr>))"
    by blast
  have "map_of (heap u') p
               = (if numRefs t1 - 2 = 0 then None
                  else Some (t1\<lparr>platformThread := None, numRefs := numRefs t1 - 2\<rparr>))"
    using h' by (simp add: t2_def two)
  then show ?thesis
    using te w by blast
qed

lemma join_after_run:
  assumes live: "map_of (heap u) p = Some t1"
    and hd: "Platform_handle (platformThread t1) u = Some (h, ot)"
    and old: "currentThread u h = None"
    and sa: "startArg ot = Some p"
    and n0: "numRefs t1 \<noteq> 0" and n1: "numRefs t1 - 1 \<noteq> 0"
  shows "\<exists>u2 u'. Platform_runThread invokeFunctionUnchecked h u
               = Inr (invokeFunctionUnchecked (thread_context t1) (entryFunction t1) (argument t1), u2)
           \<and> joinThread_wait p u2
               = Inr (Some (invokeFunctionUnchecked (thread_context t1) (entryFunction t1)
                              (argument t1)), u')
           \<and> map_of (heap u') p
               = (if numRefs t1 - 2 = 0 then None
                  else Some (t1\<lparr>platformThread := None, numRefs := numRefs t1 - 2\<rparr>))"
proof -
  define code where
    "code = invokeFunctionUnchecked (thread_context t1) (entryFunction t1) (argument t1)"
  define ua where "ua = u\<lparr>currentThread := (currentThread u)(h := Some p)\<rparr>"
  have os: "map_of (osThreads u) h = Some ot"
    using hd by (simp add: Platform_handle_Some)
  have en: "threadEntry invokeFunctionUnchecked h p u = Inr (code, ua)"
    using threadEntry_eq [OF old live n0, of invokeFunctionUnchecked]
    by (simp add: code_def ua_def)
  have livea: "map_of (heap ua) p = Some t1"
    using live by (simp add: ua_def)
  have hda: "Platform_handle (platformThread t1) ua = Some (h, ot)"
    using hd by (simp add: Platform_handle_Some ua_def)
  have cura: "currentThread ua h = Some p"
    by (simp add: ua_def)
  from join_after_end_with_teardown [OF livea hda cura n1, of code] obtain u2 u' where
    te: "Platform_threadEnd True h code ua = Inr ((), u2)"
    and w: "joinThread_wait p u2 = Inr (Some code, u')"
    and h': "map_of (heap u') p
               = (if numRefs t1 - 2 = 0 then None
                  else Some (t1\<lparr>platformThread := None, numRefs := numRefs t1 - 2\<rparr>))"
    by blast
  have "Platform_runThread invokeFunctionUnchecked h u = Inr (code, u2)"
    by (simp add: Platform_runThread_def os sa en te)
  then show ?thesis
    using w h' unfolding code_def by blast
qed


text \<open>
  Claim C7. Let \<open>threadId\<close> be nonzero and mapped in the registry to a live object
  that stores this id, with the mutex free. Then \<open>joinThread(threadId)\<close> removes the
  id, and
  \<^item> while the target OS thread is running the call stays blocked, holding the object
    with its count unchanged. When the target then terminates with a code, the wait
    returns exactly that code, the handle is cleared and the caller's reference
    released. The target's end is taken with what it does to the object: a target
    that runs as the object and destroys its thread-locals at its end (the object's
    count covering the caller's reference besides) releases its own reference
    first, so the count ends two lower; a target ended without destroying its
    thread-locals leaves that reference, so the count ends one lower; a target
    that has not started yet runs its trampoline to the end first, and the code
    is the result of the entry function. The object is destroyed when the count
    ends at zero;
  \<^item> if the target has terminated with a code, the call returns exactly that code,
    the object's platform handle is null and its count is one less (the object is
    destroyed if that makes the count zero);
  \<^item> if the platform reports an error for the handle, the call fails with that
    error and the object's count is one less all the same (the handle is not
    cleared on this path).
\<close>

theorem joinThread_mapped:
  assumes m: "\<not> threadsMutex s" and nz: "threadId \<noteq> 0"
    and reg: "map_of (threads s) threadId = Some (Some p)"
    and live: "map_of (heap s) p = Some t" and idt: "thread_id t = threadId"
  shows "(\<forall>h ot. Platform_handle (platformThread t) s = Some (h, ot) \<and> status ot = Running \<longrightarrow>
           (\<exists>s1. joinThread threadId s = Inr (None, s1)
               \<and> joinThread_wait p s1 = Inr (None, s1)
               \<and> map_of (heap s1) p = Some (t\<lparr>thread_id := UINTPTR_MAX\<rparr>)
               \<and> \<not> IndexMap_contains (threads s1) threadId
               \<and> (currentThread s h = Some p \<and> numRefs t - 1 \<noteq> 0 \<longrightarrow>
                    (\<forall>code. \<exists>s2 s'.
                       Platform_threadEnd True h code s1 = Inr ((), s2)
                     \<and> joinThread_wait p s2 = Inr (Some code, s')
                     \<and> map_of (heap s') p
                         = (if numRefs t - 2 = 0 then None
                            else Some (t\<lparr>thread_id := UINTPTR_MAX, platformThread := None,
                                         numRefs := numRefs t - 2\<rparr>))))
               \<and> (currentThread s h = Some p \<longrightarrow>
                    (\<forall>code. \<exists>s2 s'.
                       Platform_threadEnd False h code s1 = Inr ((), s2)
                     \<and> joinThread_wait p s2 = Inr (Some code, s')
                     \<and> map_of (heap s') p
                         = (if numRefs t - 1 = 0 then None
                            else Some (t\<lparr>thread_id := UINTPTR_MAX, platformThread := None,
                                         numRefs := numRefs t - 1\<rparr>))))
               \<and> (currentThread s h = None \<and> startArg ot = Some p
                    \<and> numRefs t \<noteq> 0 \<and> numRefs t - 1 \<noteq> 0 \<longrightarrow>
                    (\<forall>invokeFunctionUnchecked. \<exists>s2 s'.
                       Platform_runThread invokeFunctionUnchecked h s1
                         = Inr (invokeFunctionUnchecked (thread_context t) (entryFunction t)
                                  (argument t), s2)
                     \<and> joinThread_wait p s2
                         = Inr (Some (invokeFunctionUnchecked (thread_context t) (entryFunction t)
                                        (argument t)), s')
                     \<and> map_of (heap s') p
                         = (if numRefs t - 2 = 0 then None
                            else Some (t\<lparr>thread_id := UINTPTR_MAX, platformThread := None,
                                         numRefs := numRefs t - 2\<rparr>))))))
       \<and> (\<forall>h ot code.
             Platform_handle (platformThread t) s = Some (h, ot) \<and> status ot = Exited code \<longrightarrow>
           (\<exists>s'. joinThread threadId s = Inr (Some code, s')
               \<and> map_of (heap s') p
                   = (if numRefs t - 1 = 0 then None
                      else Some (t\<lparr>thread_id := UINTPTR_MAX, platformThread := None,
                                   numRefs := numRefs t - 1\<rparr>))
               \<and> \<not> IndexMap_contains (threads s') threadId \<and> \<not> threadsMutex s'))
       \<and> (Platform_handle (platformThread t) s = None \<longrightarrow>
           (\<exists>s'. joinThread threadId s = Inl (platformError, s')
               \<and> map_of (heap s') p
                   = (if numRefs t - 1 = 0 then None
                      else Some (t\<lparr>thread_id := UINTPTR_MAX, numRefs := numRefs t - 1\<rparr>))
               \<and> \<not> IndexMap_contains (threads s') threadId \<and> \<not> threadsMutex s'))"
proof -
  define t1 where "t1 = t\<lparr>thread_id := UINTPTR_MAX\<rparr>"
  define s1 where "s1 = s\<lparr>threads := AList.delete threadId (threads s),
                        heap := AList.update p t1 (heap s)\<rparr>"
  have rm: "removeThreadById threadId s = Inr (p, s1)"
    using removeThreadById_eq [OF m nz reg live idt] by (simp add: s1_def t1_def)
  have jt: "joinThread threadId s = joinThread_wait p s1"
    by (simp add: joinThread_def rm)
  have live1: "map_of (heap s1) p = Some t1"
    by (simp add: s1_def update_conv')
  have nc1: "\<not> IndexMap_contains (threads s1) threadId" and m1: "\<not> threadsMutex s1"
    using m by (simp_all add: s1_def IndexMap_contains_def delete_conv')
  have "osThreads s1 = osThreads s"
    by (simp add: s1_def)
  then have hd1: "Platform_handle (platformThread t1) s1 = Platform_handle (platformThread t) s"
    using Platform_handle_osThreads [of s1 s "platformThread t"] by (simp add: t1_def)
  have cur1: "currentThread s1 = currentThread s"
    by (simp add: s1_def)
  have running: "\<exists>s1. joinThread threadId s = Inr (None, s1)
               \<and> joinThread_wait p s1 = Inr (None, s1)
               \<and> map_of (heap s1) p = Some (t\<lparr>thread_id := UINTPTR_MAX\<rparr>)
               \<and> \<not> IndexMap_contains (threads s1) threadId
               \<and> (currentThread s h = Some p \<and> numRefs t - 1 \<noteq> 0 \<longrightarrow>
                    (\<forall>code. \<exists>s2 s'.
                       Platform_threadEnd True h code s1 = Inr ((), s2)
                     \<and> joinThread_wait p s2 = Inr (Some code, s')
                     \<and> map_of (heap s') p
                         = (if numRefs t - 2 = 0 then None
                            else Some (t\<lparr>thread_id := UINTPTR_MAX, platformThread := None,
                                         numRefs := numRefs t - 2\<rparr>))))
               \<and> (currentThread s h = Some p \<longrightarrow>
                    (\<forall>code. \<exists>s2 s'.
                       Platform_threadEnd False h code s1 = Inr ((), s2)
                     \<and> joinThread_wait p s2 = Inr (Some code, s')
                     \<and> map_of (heap s') p
                         = (if numRefs t - 1 = 0 then None
                            else Some (t\<lparr>thread_id := UINTPTR_MAX, platformThread := None,
                                         numRefs := numRefs t - 1\<rparr>))))
               \<and> (currentThread s h = None \<and> startArg ot = Some p
                    \<and> numRefs t \<noteq> 0 \<and> numRefs t - 1 \<noteq> 0 \<longrightarrow>
                    (\<forall>invokeFunctionUnchecked. \<exists>s2 s'.
                       Platform_runThread invokeFunctionUnchecked h s1
                         = Inr (invokeFunctionUnchecked (thread_context t) (entryFunction t)
                                  (argument t), s2)
                     \<and> joinThread_wait p s2
                         = Inr (Some (invokeFunctionUnchecked (thread_context t) (entryFunction t)
                                        (argument t)), s')
                     \<and> map_of (heap s') p
                         = (if numRefs t - 2 = 0 then None
                            else Some (t\<lparr>thread_id := UINTPTR_MAX, platformThread := None,
                                         numRefs := numRefs t - 2\<rparr>))))"
    if hd: "Platform_handle (platformThread t) s = Some (h, ot)" and st: "status ot = Running"
    for h ot
  proof -
    have hd': "Platform_handle (platformThread t1) s1 = Some (h, ot)"
      using hd hd1 by simp
    have w: "joinThread_wait p s1 = Inr (None, s1)"
      by (rule joinThread_wait_Running [OF live1 hd' st])
    have a: "\<forall>code. \<exists>s2 s'.
                       Platform_threadEnd True h code s1 = Inr ((), s2)
                     \<and> joinThread_wait p s2 = Inr (Some code, s')
                     \<and> map_of (heap s') p
                         = (if numRefs t - 2 = 0 then None
                            else Some (t\<lparr>thread_id := UINTPTR_MAX, platformThread := None,
                                         numRefs := numRefs t - 2\<rparr>))"
      if c: "currentThread s h = Some p" and n: "numRefs t - 1 \<noteq> 0"
    proof
      fix code
      have c1: "currentThread s1 h = Some p" using c cur1 by simp
      have n1: "numRefs t1 - 1 \<noteq> 0" using n by (simp add: t1_def)
      from join_after_end_with_teardown [OF live1 hd' c1 n1, of code]
      obtain s2 s' where o:
        "Platform_threadEnd True h code s1 = Inr ((), s2)"
        "joinThread_wait p s2 = Inr (Some code, s')"
        "map_of (heap s') p
           = (if numRefs t1 - 2 = 0 then None
              else Some (t1\<lparr>platformThread := None, numRefs := numRefs t1 - 2\<rparr>))"
        by blast
      show "\<exists>s2 s'.
                       Platform_threadEnd True h code s1 = Inr ((), s2)
                     \<and> joinThread_wait p s2 = Inr (Some code, s')
                     \<and> map_of (heap s') p
                         = (if numRefs t - 2 = 0 then None
                            else Some (t\<lparr>thread_id := UINTPTR_MAX, platformThread := None,
                                         numRefs := numRefs t - 2\<rparr>))"
        using o by (intro exI [of _ s2] exI [of _ s']) (simp add: t1_def)
    qed
    have b: "\<forall>code. \<exists>s2 s'.
                       Platform_threadEnd False h code s1 = Inr ((), s2)
                     \<and> joinThread_wait p s2 = Inr (Some code, s')
                     \<and> map_of (heap s') p
                         = (if numRefs t - 1 = 0 then None
                            else Some (t\<lparr>thread_id := UINTPTR_MAX, platformThread := None,
                                         numRefs := numRefs t - 1\<rparr>))"
    proof
      fix code
      from join_after_end_without_teardown [OF live1 hd', of code]
      obtain s2 s' where o:
        "Platform_threadEnd False h code s1 = Inr ((), s2)"
        "joinThread_wait p s2 = Inr (Some code, s')"
        "map_of (heap s') p
           = (if numRefs t1 - 1 = 0 then None
              else Some (t1\<lparr>platformThread := None, numRefs := numRefs t1 - 1\<rparr>))"
        by blast
      show "\<exists>s2 s'.
                       Platform_threadEnd False h code s1 = Inr ((), s2)
                     \<and> joinThread_wait p s2 = Inr (Some code, s')
                     \<and> map_of (heap s') p
                         = (if numRefs t - 1 = 0 then None
                            else Some (t\<lparr>thread_id := UINTPTR_MAX, platformThread := None,
                                         numRefs := numRefs t - 1\<rparr>))"
        using o by (intro exI [of _ s2] exI [of _ s']) (simp add: t1_def)
    qed
    have c: "\<forall>invokeFunctionUnchecked. \<exists>s2 s'.
                       Platform_runThread invokeFunctionUnchecked h s1
                         = Inr (invokeFunctionUnchecked (thread_context t) (entryFunction t)
                                  (argument t), s2)
                     \<and> joinThread_wait p s2
                         = Inr (Some (invokeFunctionUnchecked (thread_context t) (entryFunction t)
                                        (argument t)), s')
                     \<and> map_of (heap s') p
                         = (if numRefs t - 2 = 0 then None
                            else Some (t\<lparr>thread_id := UINTPTR_MAX, platformThread := None,
                                         numRefs := numRefs t - 2\<rparr>))"
      if old: "currentThread s h = None" and sa: "startArg ot = Some p"
        and n0: "numRefs t \<noteq> 0" and n: "numRefs t - 1 \<noteq> 0"
    proof
      fix invokeFunctionUnchecked :: "nat \<Rightarrow> Function \<Rightarrow> Value \<Rightarrow> I64"
      have old1: "currentThread s1 h = None" using old cur1 by simp
      have n01: "numRefs t1 \<noteq> 0" and n1: "numRefs t1 - 1 \<noteq> 0"
        using n0 n by (simp_all add: t1_def)
      from join_after_run [OF live1 hd' old1 sa n01 n1, of invokeFunctionUnchecked]
      obtain s2 s' where o:
        "Platform_runThread invokeFunctionUnchecked h s1
           = Inr (invokeFunctionUnchecked (thread_context t1) (entryFunction t1) (argument t1), s2)"
        "joinThread_wait p s2
           = Inr (Some (invokeFunctionUnchecked (thread_context t1) (entryFunction t1)
                          (argument t1)), s')"
        "map_of (heap s') p
           = (if numRefs t1 - 2 = 0 then None
              else Some (t1\<lparr>platformThread := None, numRefs := numRefs t1 - 2\<rparr>))"
        by blast
      show "\<exists>s2 s'.
                       Platform_runThread invokeFunctionUnchecked h s1
                         = Inr (invokeFunctionUnchecked (thread_context t) (entryFunction t)
                                  (argument t), s2)
                     \<and> joinThread_wait p s2
                         = Inr (Some (invokeFunctionUnchecked (thread_context t) (entryFunction t)
                                        (argument t)), s')
                     \<and> map_of (heap s') p
                         = (if numRefs t - 2 = 0 then None
                            else Some (t\<lparr>thread_id := UINTPTR_MAX, platformThread := None,
                                         numRefs := numRefs t - 2\<rparr>))"
        using o by (intro exI [of _ s2] exI [of _ s']) (simp add: t1_def)
    qed
    have l1: "map_of (heap s1) p = Some (t\<lparr>thread_id := UINTPTR_MAX\<rparr>)"
      using live1 by (simp add: t1_def)
    have j: "joinThread threadId s = Inr (None, s1)"
      using jt w by simp
    show ?thesis
      apply (rule exI [of _ s1])
      apply (intro conjI impI)
            apply (rule j)
           apply (rule w)
          apply (rule l1)
         apply (rule nc1)
        apply (erule conjE, erule (1) a)
       apply (rule b)
      apply (elim conjE, erule (3) c)
      done
  qed
  have exited: "\<exists>s'. joinThread threadId s = Inr (Some code, s')
               \<and> map_of (heap s') p
                   = (if numRefs t - 1 = 0 then None
                      else Some (t\<lparr>thread_id := UINTPTR_MAX, platformThread := None,
                                   numRefs := numRefs t - 1\<rparr>))
               \<and> \<not> IndexMap_contains (threads s') threadId \<and> \<not> threadsMutex s'"
    if hd: "Platform_handle (platformThread t) s = Some (h, ot)" and st: "status ot = Exited code"
    for h ot code
  proof -
    have hd': "Platform_handle (platformThread t1) s1 = Some (h, ot)"
      using hd hd1 by simp
    from joinThread_wait_Exited [OF live1 hd' st]
    obtain u' where
      "joinThread_wait p s1 = Inr (Some code, u')"
      "map_of (heap u') p
         = (if numRefs t1 - 1 = 0 then None
            else Some (t1\<lparr>platformThread := None, numRefs := numRefs t1 - 1\<rparr>))"
      "threads u' = threads s1" "threadsMutex u' = threadsMutex s1"
      by blast
    then show ?thesis
      using jt nc1 m1 by (intro exI [of _ u']) (simp add: t1_def)
  qed
  have failed: "\<exists>s'. joinThread threadId s = Inl (platformError, s')
               \<and> map_of (heap s') p
                   = (if numRefs t - 1 = 0 then None
                      else Some (t\<lparr>thread_id := UINTPTR_MAX, numRefs := numRefs t - 1\<rparr>))
               \<and> \<not> IndexMap_contains (threads s') threadId \<and> \<not> threadsMutex s'"
    if hd: "Platform_handle (platformThread t) s = None"
  proof -
    have hd': "Platform_handle (platformThread t1) s1 = None"
      using hd hd1 by simp
    from joinThread_wait_platformError [OF live1 hd']
    obtain u' where
      "joinThread_wait p s1 = Inl (platformError, u')"
      "map_of (heap u') p
         = (if numRefs t1 - 1 = 0 then None else Some (t1\<lparr>numRefs := numRefs t1 - 1\<rparr>))"
      "threads u' = threads s1" "threadsMutex u' = threadsMutex s1"
      by blast
    then show ?thesis
      using jt nc1 m1 by (intro exI [of _ u']) (simp add: t1_def)
  qed
  show ?thesis
    apply (intro conjI allI impI)
      apply (elim conjE, erule (1) running)
     apply (elim conjE, erule (1) exited)
    apply (erule failed)
    done
qed


lemma Platform_runThread_ex_state1:
  "Platform_runThread (\<lambda>c f a. 84) 1 ex_state1 = Inr (84, ex_state3)"
proof -
  have f: "((\<lambda>_. None)(1 := Some (1::nat)))(1 := None) = (\<lambda>_::nat. None)"
    by (simp add: fun_eq_iff)
  show ?thesis
    by (simp add: Platform_runThread_def threadEntry_def setCurrentThread_def Let_def
          IntrusiveSharedPtr_acquire_def IntrusiveSharedPtr_release_def addRef_def removeRef_def
          readThread_def Platform_threadEnd_def currentThread_destroy_def
          ex_state1_def ex_state3_def ex_thread_def f)
qed

theorem joinThread_mapped_witness:
  "\<not> threadsMutex ex_state2 \<and> map_of (threads ex_state2) 1 = Some (Some 1)
   \<and> map_of (heap ex_state2) 1 = Some ex_thread \<and> thread_id ex_thread = 1
   \<and> currentThread ex_state2 1 = Some 1 \<and> numRefs ex_thread - 1 \<noteq> 0
   \<and> (\<exists>s1. joinThread 1 ex_state2 = Inr (None, s1)
         \<and> (\<exists>s2 s'. Platform_threadEnd True 1 84 s1 = Inr ((), s2)
                \<and> joinThread_wait 1 s2 = Inr (Some 84, s')
                \<and> map_of (heap s') 1 = None))
   \<and> currentThread ex_state1 1 = None
   \<and> (\<exists>s1. joinThread 1 ex_state1 = Inr (None, s1)
         \<and> (\<exists>s2 s'. Platform_runThread (\<lambda>c f a. 84) 1 s1 = Inr (84, s2)
                \<and> joinThread_wait 1 s2 = Inr (Some 84, s')
                \<and> map_of (heap s') 1 = None))
   \<and> Platform_runThread (\<lambda>c f a. 84) 1 ex_state1 = Inr (84, ex_state3)
   \<and> (\<exists>s'. joinThread 1 ex_state3 = Inr (Some 84, s') \<and> map_of (heap s') 1 = None)"
proof -
  let ?ot = "\<lparr>status = Running, startArg = Some 1, handleValid = True\<rparr>"
  let ?ox = "\<lparr>status = Exited 84, startArg = Some 1, handleValid = True\<rparr>"
  have nz: "(1::Uptr) \<noteq> 0" and idt: "thread_id ex_thread = 1"
    and n0: "numRefs ex_thread \<noteq> 0" and n1: "numRefs ex_thread - 1 \<noteq> 0"
    and n2: "numRefs ex_thread - 2 = 0"
    by (simp_all add: ex_thread_def)
  \<comment> \<open>the target runs as the object and ends, destroying its thread-locals\<close>
  have m2: "\<not> threadsMutex ex_state2"
    and reg2: "map_of (threads ex_state2) 1 = Some (Some 1)"
    and live2: "map_of (heap ex_state2) 1 = Some ex_thread"
    and cur2: "currentThread ex_state2 1 = Some 1"
    by (simp_all add: ex_state2_def ex_state1_def)
  have hd2: "Platform_handle (platformThread ex_thread) ex_state2 = Some (1, ?ot)
             \<and> status ?ot = Running"
    by (simp add: Platform_handle_def ex_state2_def ex_state1_def ex_thread_def)
  from joinThread_mapped [OF m2 nz reg2 live2 idt, THEN conjunct1, rule_format, OF hd2]
  obtain s1 where j2: "joinThread 1 ex_state2 = Inr (None, s1)"
    and e2: "currentThread ex_state2 1 = Some 1 \<and> numRefs ex_thread - 1 \<noteq> 0 \<longrightarrow>
                    (\<forall>code. \<exists>s2 s'.
                       Platform_threadEnd True 1 code s1 = Inr ((), s2)
                     \<and> joinThread_wait 1 s2 = Inr (Some code, s')
                     \<and> map_of (heap s') 1
                         = (if numRefs ex_thread - 2 = 0 then None
                            else Some (ex_thread\<lparr>thread_id := UINTPTR_MAX, platformThread := None,
                                         numRefs := numRefs ex_thread - 2\<rparr>)))"
    by blast
  from e2 cur2 n1 obtain s2 s' where
    "Platform_threadEnd True 1 84 s1 = Inr ((), s2)"
    "joinThread_wait 1 s2 = Inr (Some 84, s')"
    "map_of (heap s') 1
       = (if numRefs ex_thread - 2 = 0 then None
          else Some (ex_thread\<lparr>thread_id := UINTPTR_MAX, platformThread := None,
                       numRefs := numRefs ex_thread - 2\<rparr>))"
    by blast
  then have started: "\<exists>s1. joinThread 1 ex_state2 = Inr (None, s1)
         \<and> (\<exists>s2 s'. Platform_threadEnd True 1 84 s1 = Inr ((), s2)
                \<and> joinThread_wait 1 s2 = Inr (Some 84, s')
                \<and> map_of (heap s') 1 = None)"
    using j2 n2 by (intro exI [of _ s1] conjI exI [of _ s2] exI [of _ s']) simp_all
  \<comment> \<open>the target has not started: it runs its trampoline to the end\<close>
  have m1: "\<not> threadsMutex ex_state1"
    and reg1: "map_of (threads ex_state1) 1 = Some (Some 1)"
    and live1: "map_of (heap ex_state1) 1 = Some ex_thread"
    and cur1: "currentThread ex_state1 1 = None"
    by (simp_all add: ex_state1_def)
  have hd1: "Platform_handle (platformThread ex_thread) ex_state1 = Some (1, ?ot)
             \<and> status ?ot = Running"
    by (simp add: Platform_handle_def ex_state1_def ex_thread_def)
  from joinThread_mapped [OF m1 nz reg1 live1 idt, THEN conjunct1, rule_format, OF hd1]
  obtain u1 where j1: "joinThread 1 ex_state1 = Inr (None, u1)"
    and e1: "currentThread ex_state1 1 = None \<and> startArg ?ot = Some 1
                    \<and> numRefs ex_thread \<noteq> 0 \<and> numRefs ex_thread - 1 \<noteq> 0 \<longrightarrow>
                    (\<forall>invokeFunctionUnchecked. \<exists>s2 s'.
                       Platform_runThread invokeFunctionUnchecked 1 u1
                         = Inr (invokeFunctionUnchecked (thread_context ex_thread)
                                  (entryFunction ex_thread) (argument ex_thread), s2)
                     \<and> joinThread_wait 1 s2
                         = Inr (Some (invokeFunctionUnchecked (thread_context ex_thread)
                                        (entryFunction ex_thread) (argument ex_thread)), s')
                     \<and> map_of (heap s') 1
                         = (if numRefs ex_thread - 2 = 0 then None
                            else Some (ex_thread\<lparr>thread_id := UINTPTR_MAX, platformThread := None,
                                         numRefs := numRefs ex_thread - 2\<rparr>)))"
    by blast
  have sa: "startArg ?ot = Some 1" by simp
  from e1 cur1 sa n0 n1 have "\<exists>s2 s'.
                       Platform_runThread (\<lambda>c f a. 84) 1 u1
                         = Inr ((\<lambda>c f a. 84) (thread_context ex_thread)
                                  (entryFunction ex_thread) (argument ex_thread), s2)
                     \<and> joinThread_wait 1 s2
                         = Inr (Some ((\<lambda>c f a. 84) (thread_context ex_thread)
                                        (entryFunction ex_thread) (argument ex_thread)), s')
                     \<and> map_of (heap s') 1
                         = (if numRefs ex_thread - 2 = 0 then None
                            else Some (ex_thread\<lparr>thread_id := UINTPTR_MAX, platformThread := None,
                                         numRefs := numRefs ex_thread - 2\<rparr>))"
    by blast
  then obtain v2 v' where
    "Platform_runThread (\<lambda>c f a. 84) 1 u1 = Inr (84, v2)"
    "joinThread_wait 1 v2 = Inr (Some 84, v')"
    "map_of (heap v') 1 = None"
    using n2 by auto
  then have unstarted: "\<exists>s1. joinThread 1 ex_state1 = Inr (None, s1)
         \<and> (\<exists>s2 s'. Platform_runThread (\<lambda>c f a. 84) 1 s1 = Inr (84, s2)
                \<and> joinThread_wait 1 s2 = Inr (Some 84, s')
                \<and> map_of (heap s') 1 = None)"
    using j1 by (intro exI [of _ u1] conjI exI [of _ v2] exI [of _ v']) simp_all
  \<comment> \<open>the target has run to its end before the call\<close>
  have m3: "\<not> threadsMutex ex_state3"
    and reg3: "map_of (threads ex_state3) 1 = Some (Some 1)"
    and live3: "map_of (heap ex_state3) 1 = Some (ex_thread\<lparr>numRefs := 1\<rparr>)"
    and idt3: "thread_id (ex_thread\<lparr>numRefs := 1\<rparr>) = 1"
    by (simp_all add: ex_state3_def ex_thread_def)
  have hd3: "Platform_handle (platformThread (ex_thread\<lparr>numRefs := 1\<rparr>)) ex_state3 = Some (1, ?ox)
             \<and> status ?ox = Exited 84"
    by (simp add: Platform_handle_def ex_state3_def ex_thread_def)
  from joinThread_mapped [OF m3 nz reg3 live3 idt3, THEN conjunct2, THEN conjunct1, rule_format,
         OF hd3]
  have exited: "\<exists>s'. joinThread 1 ex_state3 = Inr (Some 84, s') \<and> map_of (heap s') 1 = None"
    by auto
  show ?thesis
    using m2 reg2 live2 idt cur2 n1 started cur1 unstarted Platform_runThread_ex_state1 exited
    by (intro conjI)
qed

section \<open>The race of two removals (C9)\<close>

lemma race_step_closed:
  assumes nz: "threadId \<noteq> 0"
    and reg: "map_of (threads s) threadId = Some (Some p)"
    and live: "map_of (heap s) p = Some t" and idt: "thread_id t = threadId"
    and c: "conf \<in> set (race_confs threadId p t s)"
  shows "race_step threadId pick conf \<in> set (race_confs threadId p t s)"
  using c nz reg live idt
  unfolding race_confs_def Let_def
  by (cases pick)
     (auto simp: race_step_def removeThreadById_step_def validateThreadId_def
        IndexMap_contains_def removeThreadById_move_def removeThreadById_erase_def
        removeThreadById_resetId_def IntrusiveSharedPtr_release_def readThread_def
        modifyThread_def update_conv' delete_conv' delete_update_same)


lemma race_closed:
  assumes nz: "threadId \<noteq> 0"
    and reg: "map_of (threads s) threadId = Some (Some p)"
    and live: "map_of (heap s) p = Some t" and idt: "thread_id t = threadId"
  shows "conf \<in> set (race_confs threadId p t s)
         \<Longrightarrow> race threadId schedule conf \<in> set (race_confs threadId p t s)"
  unfolding race_def
proof (induction schedule arbitrary: conf)
  case Nil
  then show ?case by simp
next
  case (Cons pick schedule)
  have "race_step threadId pick conf \<in> set (race_confs threadId p t s)"
    by (rule race_step_closed [OF nz reg live idt Cons.prems])
  then show ?case
    using Cons.IH by simp
qed

lemma race_confs_properties:
  assumes c: "(a, b, s') \<in> set (race_confs threadId p t s)"
  shows "\<not> (holds_pointer a \<and> holds_pointer b)
       \<and> (\<forall>ra rb. a = Done ra \<and> b = Done rb \<longrightarrow>
             ((ra = Inr p \<and> rb = Inl invalidArgument) \<or> (ra = Inl invalidArgument \<and> rb = Inr p))
           \<and> s' = s\<lparr>threadsMutex := False, threads := AList.delete threadId (threads s),
                      heap := AList.update p (t\<lparr>thread_id := UINTPTR_MAX\<rparr>) (heap s)\<rparr>)"
  using c unfolding race_confs_def Let_def
  by (auto simp: holds_pointer_def)

lemma State_mutex_False: "\<not> threadsMutex s \<Longrightarrow> s\<lparr>threadsMutex := False\<rparr> = s"
  by (cases s) simp

text \<open>
  Claim C9. Two callers race to remove the same id, which is mapped to a live object
  storing that id, with the mutex free at the start. Under every schedule of their
  steps the two callers never both hold the object, and whenever both calls are
  over exactly one of them has returned the object and the other has thrown the
  invalid-argument exception; the final state is the one that the two calls give
  when run one after the other, the first removing the id and the second failing
  on it without changing anything. Schedules on which both calls finish exist, with
  either caller as the winner.
\<close>

theorem removal_race:
  assumes m: "\<not> threadsMutex s" and nz: "threadId \<noteq> 0"
    and reg: "map_of (threads s) threadId = Some (Some p)"
    and live: "map_of (heap s) p = Some t" and idt: "thread_id t = threadId"
  shows "(\<forall>schedule a b s'.
            race threadId schedule (Waiting, Waiting, s) = (a, b, s') \<longrightarrow>
              \<not> (holds_pointer a \<and> holds_pointer b)
            \<and> (\<forall>ra rb. a = Done ra \<and> b = Done rb \<longrightarrow>
                  ((ra = Inr p \<and> rb = Inl invalidArgument)
                   \<or> (ra = Inl invalidArgument \<and> rb = Inr p))
                \<and> removeThreadById threadId s = Inr (p, s')
                \<and> removeThreadById threadId s' = Inl (invalidArgument, s')))
       \<and> (\<exists>s'. race threadId [True, True, True, True, True, True, False, False]
                  (Waiting, Waiting, s) = (Done (Inr p), Done (Inl invalidArgument), s'))
       \<and> (\<exists>s'. race threadId [False, True, False, True, False, False, False, True, False, True, True]
                  (Waiting, Waiting, s) = (Done (Inl invalidArgument), Done (Inr p), s'))"
proof -
  define s1 where "s1 = s\<lparr>threads := AList.delete threadId (threads s),
                         heap := AList.update p (t\<lparr>thread_id := UINTPTR_MAX\<rparr>) (heap s)\<rparr>"
  have init: "(Waiting, Waiting, s) \<in> set (race_confs threadId p t s)"
    using State_mutex_False [OF m] by (simp add: race_confs_def Let_def)
  have rm: "removeThreadById threadId s = Inr (p, s1)"
    using removeThreadById_eq [OF m nz reg live idt] by (simp add: s1_def)
  have m1: "\<not> threadsMutex s1" and nc1: "\<not> IndexMap_contains (threads s1) threadId"
    using m by (simp_all add: s1_def IndexMap_contains_def delete_conv')
  have rm1: "removeThreadById threadId s1 = Inl (invalidArgument, s1)"
    using removeThreadById_invalid [OF m1] nc1 by simp
  have s1': "s\<lparr>threadsMutex := False, threads := AList.delete threadId (threads s),
                heap := AList.update p (t\<lparr>thread_id := UINTPTR_MAX\<rparr>) (heap s)\<rparr> = s1"
    by (simp only: s1_def State_mutex_False [OF m])
  have safe: "\<forall>schedule a b s'.
            race threadId schedule (Waiting, Waiting, s) = (a, b, s') \<longrightarrow>
              \<not> (holds_pointer a \<and> holds_pointer b)
            \<and> (\<forall>ra rb. a = Done ra \<and> b = Done rb \<longrightarrow>
                  ((ra = Inr p \<and> rb = Inl invalidArgument)
                   \<or> (ra = Inl invalidArgument \<and> rb = Inr p))
                \<and> removeThreadById threadId s = Inr (p, s')
                \<and> removeThreadById threadId s' = Inl (invalidArgument, s'))"
  proof (intro allI impI)
    fix schedule a b s'
    assume r: "race threadId schedule (Waiting, Waiting, s) = (a, b, s')"
    have "(a, b, s') \<in> set (race_confs threadId p t s)"
      using race_closed [OF nz reg live idt init, of schedule] r by simp
    from race_confs_properties [OF this]
    show "\<not> (holds_pointer a \<and> holds_pointer b)
            \<and> (\<forall>ra rb. a = Done ra \<and> b = Done rb \<longrightarrow>
                  ((ra = Inr p \<and> rb = Inl invalidArgument)
                   \<or> (ra = Inl invalidArgument \<and> rb = Inr p))
                \<and> removeThreadById threadId s = Inr (p, s')
                \<and> removeThreadById threadId s' = Inl (invalidArgument, s'))"
      using rm rm1 s1' by auto
  qed
  have run1: "\<exists>s'. race threadId [True, True, True, True, True, True, False, False]
                  (Waiting, Waiting, s) = (Done (Inr p), Done (Inl invalidArgument), s')"
    using m nz reg live idt
    by (simp add: race_def race_step_def removeThreadById_step_def validateThreadId_def
        IndexMap_contains_def removeThreadById_move_def removeThreadById_erase_def
        removeThreadById_resetId_def IntrusiveSharedPtr_release_def readThread_def
        modifyThread_def update_conv' delete_conv' delete_update_same)
  have run2: "\<exists>s'. race threadId [False, True, False, True, False, False, False, True, False, True, True]
                  (Waiting, Waiting, s) = (Done (Inl invalidArgument), Done (Inr p), s')"
    using m nz reg live idt
    by (simp add: race_def race_step_def removeThreadById_step_def validateThreadId_def
        IndexMap_contains_def removeThreadById_move_def removeThreadById_erase_def
        removeThreadById_resetId_def IntrusiveSharedPtr_release_def readThread_def
        modifyThread_def update_conv' delete_conv' delete_update_same)
  show ?thesis
    by (rule conjI [OF safe conjI [OF run1 run2]])
qed

theorem removal_race_witness:
  "\<not> threadsMutex ex_state1 \<and> map_of (threads ex_state1) 1 = Some (Some 1)
   \<and> map_of (heap ex_state1) 1 = Some ex_thread \<and> thread_id ex_thread = 1
   \<and> (\<exists>s'. race 1 [True, True, True, True, True, True, False, False]
                (Waiting, Waiting, ex_state1) = (Done (Inr 1), Done (Inl invalidArgument), s')
          \<and> removeThreadById 1 ex_state1 = Inr (1, s')
          \<and> removeThreadById 1 s' = Inl (invalidArgument, s'))"
proof -
  have m: "\<not> threadsMutex ex_state1" and nz: "(1::Uptr) \<noteq> 0"
    and reg: "map_of (threads ex_state1) 1 = Some (Some 1)"
    and live: "map_of (heap ex_state1) 1 = Some ex_thread"
    and idt: "thread_id ex_thread = 1"
    by (simp_all add: ex_state1_def ex_thread_def)
  note T = removal_race [OF m nz reg live idt]
  from T [THEN conjunct2, THEN conjunct1] obtain s' where
    r: "race 1 [True, True, True, True, True, True, False, False]
          (Waiting, Waiting, ex_state1) = (Done (Inr 1), Done (Inl invalidArgument), s')"
    by blast
  have "removeThreadById 1 ex_state1 = Inr (1, s')
        \<and> removeThreadById 1 s' = Inl (invalidArgument, s')"
    using T [THEN conjunct1, rule_format, OF r, THEN conjunct2, rule_format,
             of "Inr 1" "Inl invalidArgument"]
    by simp
  then show ?thesis
    using m reg live idt r by blast
qed

end
